theory Spec2Isabelle
  imports Complex_Main "HOL-Library.Multiset"
begin

section \<open>String primitives used by moelist\<close>

text \<open>
  The string methods of the host language that \<open>src/libs/moelist/index.ts\<close> calls,
  over \<open>string\<close>. One \<open>char\<close> stands for one code unit of the source string.
\<close>

definition endsWith :: "string \<Rightarrow> string \<Rightarrow> bool" where
  "endsWith s suf = (length suf \<le> length s \<and> drop (length s - length suf) s = suf)"

definition startsWith :: "string \<Rightarrow> string \<Rightarrow> bool" where
  "startsWith s pre = (take (length pre) s = pre)"

text \<open>
  \<open>s.split(c)\<close> for a one-character separator: the pieces between the separators,
  one piece more than there are separators, so the result is never empty.
\<close>

fun js_split :: "char \<Rightarrow> string \<Rightarrow> string list" where
  "js_split c [] = [[]]"
| "js_split c (x # xs) =
     (if x = c then [] # js_split c xs
      else (case js_split c xs of [] \<Rightarrow> [[x]] | w # ws \<Rightarrow> (x # w) # ws))"

text \<open>\<open>xs.pop()\<close>, read for its result only: the last element, undefined on the empty array.\<close>

definition pop :: "'a list \<Rightarrow> 'a option" where
  "pop xs = (if xs = [] then None else Some (last xs))"

fun js_join :: "string \<Rightarrow> string list \<Rightarrow> string" where
  "js_join sep [] = []"
| "js_join sep [x] = x"
| "js_join sep (x # y # ys) = x @ sep @ js_join sep (y # ys)"

definition padStart :: "nat \<Rightarrow> string \<Rightarrow> string" where
  "padStart n s = replicate (n - length s) CHR '' '' @ s"

definition padEnd :: "nat \<Rightarrow> string \<Rightarrow> string" where
  "padEnd n s = s @ replicate (n - length s) CHR '' ''"

text \<open>A non-negative integer inside a template literal: its decimal digits.\<close>

fun show_nat :: "nat \<Rightarrow> string" where
  "show_nat n =
     (if n < 10 then [''0123456789'' ! n]
      else show_nat (n div 10) @ [''0123456789'' ! (n mod 10)])"

declare show_nat.simps [simp del]

text \<open>
  \<open>Set.add\<close> on a set of strings kept in insertion order (the order \<open>Array.from\<close> and
  iteration return).
\<close>

definition set_add :: "'a \<Rightarrow> 'a list \<Rightarrow> 'a list" where
  "set_add x xs = (if x \<in> set xs then xs else xs @ [x])"

text \<open>
  A \<open>Map\<close> kept as an association list in insertion order: \<open>has\<close>, \<open>get\<close>, and \<open>set\<close>
  (which replaces the value of a key in place and appends a new key at the end).
\<close>

definition map_has :: "('k \<times> 'v) list \<Rightarrow> 'k \<Rightarrow> bool" where
  "map_has m k = (k \<in> fst ` set m)"

definition map_get :: "('k \<times> 'v) list \<Rightarrow> 'k \<Rightarrow> 'v option" where
  "map_get m k = map_of m k"

fun map_set :: "('k \<times> 'v) list \<Rightarrow> 'k \<Rightarrow> 'v \<Rightarrow> ('k \<times> 'v) list" where
  "map_set [] k v = [(k, v)]"
| "map_set ((k', v') # m) k v = (if k' = k then (k, v) # m else (k', v') # map_set m k v)"

section \<open>Data model\<close>

text \<open>
  \<open>FileWithPath\<close>: the fields of a dropped file that the code reads. \<open>path\<close> is optional.
  Sizes and counts are non-negative integers. The counters of the readers and the size of a
  folder archive, a sum of file sizes, are exact while they stay at or below \<open>2 ^ 53\<close>; the
  totals of the report formats are sums of doubles, modelled as such below.
\<close>

record FileWithPath =
  f_name :: string
  f_size :: nat
  f_path :: "string option"

datatype ArchiveType = zip | rar | folder

record Archive =
  a_name :: string
  a_size :: nat
  a_type :: ArchiveType
  a_files :: "FileWithPath list option"

record ArchiveInfo =
  i_name :: string
  i_size :: nat
  exts :: "string list"
  fileCount :: nat
  folderCount :: nat

datatype SizeType = XXS | XS | S | M | L | XL | XXL | XXXL

text \<open>What a rejected promise carries: a \<open>TypeError\<close> of the code's own, or the decoder's failure.\<close>

datatype error = TypeError | DecodeError

text \<open>A header of the rar decoder's file list: \<open>name\<close> and \<open>flags.directory\<close>.\<close>

record FileHeader =
  h_name :: string
  h_directory :: bool

section \<open>ArchiveInfoReader\<close>

text \<open>
  The three readers end each file member with the same statements,
  \<open>const ext = name.split('.').pop(); if (ext) { extensions.add(ext); }\<close>;
  \<open>add_ext\<close> is that block. An undefined or empty \<open>ext\<close> is falsy.
\<close>

definition add_ext :: "string \<Rightarrow> string list \<Rightarrow> string list" where
  "add_ext nm extensions =
     (case pop (js_split CHR ''.'' nm) of
        None \<Rightarrow> extensions
      | Some ext \<Rightarrow> if ext \<noteq> [] then set_add ext extensions else extensions)"

text \<open>The loop of \<open>readZipfile\<close> over the paths, on (fileCount, folderCount, extensions).\<close>

fun zip_loop :: "string list \<Rightarrow> nat \<times> nat \<times> string list \<Rightarrow> nat \<times> nat \<times> string list" where
  "zip_loop [] st = st"
| "zip_loop (path # paths) (fc, dc, extensions) =
     (if endsWith path ''/'' then zip_loop paths (fc, dc + 1, extensions)
      else zip_loop paths (fc + 1, dc, add_ext path extensions))"

text \<open>
  \<open>readZipfile\<close>. The zip decoder is outside the repository: \<open>loadAsync\<close> gives the keys of
  \<open>zip.files\<close> for a container, or fails. \<open>files![0]\<close> on a missing array throws; on an
  empty array it is undefined, which the decoder rejects.
\<close>

definition readZipfile :: "(FileWithPath \<Rightarrow> string list option) \<Rightarrow> Archive \<Rightarrow> error + ArchiveInfo" where
  "readZipfile loadAsync a =
     (case a_files a of
        None \<Rightarrow> Inl TypeError
      | Some [] \<Rightarrow> Inl DecodeError
      | Some (f # _) \<Rightarrow>
          (case loadAsync f of
             None \<Rightarrow> Inl DecodeError
           | Some paths \<Rightarrow>
               (case zip_loop paths (0, 0, []) of
                  (fc, dc, extensions) \<Rightarrow>
                    Inr \<lparr>i_name = a_name a, i_size = a_size a, exts = extensions,
                         fileCount = fc, folderCount = dc\<rparr>)))"

fun rar_loop :: "FileHeader list \<Rightarrow> nat \<times> nat \<times> string list \<Rightarrow> nat \<times> nat \<times> string list" where
  "rar_loop [] st = st"
| "rar_loop (file # fileHeaders) (fc, dc, extensions) =
     (if h_directory file then rar_loop fileHeaders (fc, dc + 1, extensions)
      else rar_loop fileHeaders (fc + 1, dc, add_ext (h_name file) extensions))"

text \<open>
  \<open>readRarFile\<close>. \<open>getFileList\<close> stands for reading the container and asking the rar
  decoder for its file headers. \<open>_loadBuffer\<close> comes first: on a missing array \<open>files![0]\<close>
  throws, and on an empty array it is undefined, which \<open>readAsArrayBuffer\<close> refuses with a
  \<open>TypeError\<close> before the decoder is reached.
\<close>

definition readRarFile :: "(FileWithPath \<Rightarrow> FileHeader list option) \<Rightarrow> Archive \<Rightarrow> error + ArchiveInfo" where
  "readRarFile getFileList a =
     (case a_files a of
        None \<Rightarrow> Inl TypeError
      | Some [] \<Rightarrow> Inl TypeError
      | Some (f # _) \<Rightarrow>
          (case getFileList f of
             None \<Rightarrow> Inl DecodeError
           | Some fileHeaders \<Rightarrow>
               (case rar_loop fileHeaders (0, 0, []) of
                  (fc, dc, extensions) \<Rightarrow>
                    Inr \<lparr>i_name = a_name a, i_size = a_size a, exts = extensions,
                         fileCount = fc, folderCount = dc\<rparr>)))"

text \<open>
  The body of the inner loop of \<open>readFolder\<close>, for one \<open>depth\<close>: make the set of that depth
  if the tree has none, then add \<open>paths[depth]\<close> to it.
\<close>

definition register_depth :: "string list \<Rightarrow> nat \<Rightarrow> (nat \<times> string list) list \<Rightarrow> (nat \<times> string list) list" where
  "register_depth paths depth folderTree =
     (let t = (if \<not> map_has folderTree depth then map_set folderTree depth [] else folderTree)
      in case map_get t depth of
           None \<Rightarrow> t
         | Some folders \<Rightarrow> map_set t depth (set_add (paths ! depth) folders))"

text \<open>
  The statements of \<open>readFolder\<close> for one file, on (folderTree, extensions). \<open>file.path!\<close> of a
  file with no path is undefined, and \<open>split\<close> on it throws.
\<close>

definition folder_step ::
  "FileWithPath \<Rightarrow> (nat \<times> string list) list \<times> string list \<Rightarrow> error + (nat \<times> string list) list \<times> string list" where
  "folder_step file st =
     (case f_path file of
        None \<Rightarrow> Inl TypeError
      | Some p \<Rightarrow>
          (let paths = js_split CHR ''/'' p;
               folderTree = (if length paths > 3
                             then fold (register_depth paths) [2 ..< length paths - 1] (fst st)
                             else fst st)
           in Inr (folderTree, add_ext (f_name file) (snd st))))"

fun folder_loop ::
  "FileWithPath list \<Rightarrow> (nat \<times> string list) list \<times> string list \<Rightarrow> error + (nat \<times> string list) list \<times> string list" where
  "folder_loop [] st = Inr st"
| "folder_loop (file # files) st =
     (case folder_step file st of Inl e \<Rightarrow> Inl e | Inr st' \<Rightarrow> folder_loop files st')"

definition readFolder :: "Archive \<Rightarrow> error + ArchiveInfo" where
  "readFolder a =
     (case a_files a of
        None \<Rightarrow> Inl TypeError
      | Some files \<Rightarrow>
          (case folder_loop files ([], []) of
             Inl e \<Rightarrow> Inl e
           | Inr (folderTree, extensions) \<Rightarrow>
               Inr \<lparr>i_name = a_name a, i_size = a_size a, exts = extensions,
                    fileCount = length files,
                    folderCount = sum_list (map (\<lambda>(depth, folders). length folders) folderTree)\<rparr>))"

definition readArchiveInfo ::
  "(FileWithPath \<Rightarrow> string list option) \<Rightarrow> (FileWithPath \<Rightarrow> FileHeader list option) \<Rightarrow> Archive
     \<Rightarrow> error + ArchiveInfo" where
  "readArchiveInfo loadAsync getFileList a =
     (if a_type a = zip then readZipfile loadAsync a
      else if a_type a = rar then readRarFile getFileList a
      else readFolder a)"

text \<open>The first loop of \<open>preprocess\<close>, on (archives, others).\<close>

fun classify_loop :: "FileWithPath list \<Rightarrow> Archive list \<times> FileWithPath list \<Rightarrow> Archive list \<times> FileWithPath list" where
  "classify_loop [] st = st"
| "classify_loop (file # files) (archives, others) =
     (if endsWith (f_name file) ''.zip''
      then classify_loop files
             (archives @ [\<lparr>a_name = f_name file, a_size = f_size file, a_type = zip, a_files = Some [file]\<rparr>], others)
      else if endsWith (f_name file) ''.rar''
      then classify_loop files
             (archives @ [\<lparr>a_name = f_name file, a_size = f_size file, a_type = rar, a_files = Some [file]\<rparr>], others)
      else classify_loop files (archives, others @ [file]))"

text \<open>
  The body of the second loop, on the map \<open>folders\<close>; \<open>continue\<close> leaves the map as it
  is. A missing or empty path is falsy. After \<open>startsWith('/')\<close> the split has at least two
  pieces, so \<open>paths[1]\<close> is defined.
\<close>

definition group_step :: "FileWithPath \<Rightarrow> (string \<times> FileWithPath list) list \<Rightarrow> (string \<times> FileWithPath list) list" where
  "group_step file folders =
     (case f_path file of
        None \<Rightarrow> folders
      | Some p \<Rightarrow>
          if p = [] \<or> \<not> startsWith p ''/'' then folders
          else
            (let paths = js_split CHR ''/'' p;
                 fld = paths ! 1;
                 t = (if \<not> map_has folders fld then map_set folders fld [] else folders)
             in case map_get t fld of
                  None \<Rightarrow> t
                | Some members \<Rightarrow> map_set t fld (members @ [file])))"

fun group_loop :: "FileWithPath list \<Rightarrow> (string \<times> FileWithPath list) list \<Rightarrow> (string \<times> FileWithPath list) list" where
  "group_loop [] folders = folders"
| "group_loop (file # others) folders = group_loop others (group_step file folders)"

text \<open>The third loop: one folder archive per entry of the map, in the map's order.\<close>

fun emit_loop :: "(string \<times> FileWithPath list) list \<Rightarrow> Archive list \<Rightarrow> Archive list" where
  "emit_loop [] archives = archives"
| "emit_loop ((nm, files) # folders) archives =
     (let totalSize = fold (\<lambda>file sum. sum + f_size file) files 0
      in emit_loop folders
           (archives @ [\<lparr>a_name = nm, a_size = totalSize, a_type = folder, a_files = Some files\<rparr>]))"

definition preprocess :: "FileWithPath list \<Rightarrow> Archive list" where
  "preprocess files =
     (case classify_loop files ([], []) of
        (archives, others) \<Rightarrow> emit_loop (group_loop others []) archives)"

section \<open>Numbers of the host language\<close>

text \<open>
  A number of the source is a double. The fields of the records hold non-negative integers
  that are doubles; the running totals of the report formats are sums of doubles, which are
  doubles again: a non-negative integer or \<open>Infinity\<close>.
\<close>

datatype js_number = Finite nat | Infinity

text \<open>
  Integers up to \<open>2 ^ 53\<close> are doubles. Above, a double has a mantissa of 53 bits and the
  doubles are spaced \<open>2 ^ e\<close> apart, for the \<open>e\<close> that \<open>ulp_exp\<close> gives: the number of
  halvings that bring the integer below \<open>2 ^ 53\<close>.
\<close>

fun ulp_exp :: "nat \<Rightarrow> nat" where
  "ulp_exp n = (if n < 2 ^ 53 then 0 else Suc (ulp_exp (n div 2)))"

declare ulp_exp.simps [simp del]

text \<open>
  The double of an exact integer result: the nearest double, the one with the even mantissa
  when two are equally near, and \<open>Infinity\<close> from \<open>2 ^ 1024\<close> on.
\<close>

definition round_double :: "nat \<Rightarrow> js_number" where
  "round_double n =
     (if n \<le> 2 ^ 53 then Finite n
      else
        (let e = ulp_exp n;
             q = n div 2 ^ e;
             r = n mod 2 ^ e;
             m = (if 2 * r < 2 ^ e \<or> (2 * r = 2 ^ e \<and> even q) then q else q + 1) * 2 ^ e
         in if m < 2 ^ 1024 then Finite m else Infinity))"

text \<open>\<open>total += field\<close>: the sum of a running total and a field, as a double.\<close>

definition js_add :: "js_number \<Rightarrow> nat \<Rightarrow> js_number" where
  "js_add acc b = (case acc of Infinity \<Rightarrow> Infinity | Finite a \<Rightarrow> round_double (a + b))"

text \<open>
  What the repository takes from its host and does not fix: \<open>toLocaleString\<close>, the number
  formatting of the locale, and \<open>printLarge\<close>, the text of an integer double above \<open>2 ^ 53\<close>
  inside a template literal (the shortest digits that read back as the same double, in
  exponent notation from \<open>10 ^ 21\<close> on).
\<close>

record host =
  toLocaleString :: "js_number \<Rightarrow> string"
  printLarge :: "nat \<Rightarrow> string"

text \<open>
  A number inside a template literal. An integer up to \<open>2 ^ 53\<close> is written with all its
  decimal digits.
\<close>

definition number_text :: "host \<Rightarrow> js_number \<Rightarrow> string" where
  "number_text h x =
     (case x of
        Infinity \<Rightarrow> ''Infinity''
      | Finite n \<Rightarrow> if n \<le> 2 ^ 53 then show_nat n else printLarge h n)"

section \<open>MoelistFormatter\<close>

text \<open>
  \<open>getSizeType\<close>. Dividing by 1024 only changes the exponent of a floating-point number, so
  \<open>size / 1024 / 1024\<close> is the exact quotient, a rational here.
\<close>

definition getSizeType :: "nat \<Rightarrow> SizeType" where
  "getSizeType sz =
     (let sizeMB = (of_nat sz :: rat) / 1024 / 1024
      in if sizeMB < 20 then XXS
         else if sizeMB < 50 then XS
         else if sizeMB < 100 then S
         else if sizeMB < 175 then M
         else if sizeMB < 300 then L
         else if sizeMB < 500 then XL
         else if sizeMB < 800 then XXL
         else XXXL)"

text \<open>A \<open>SizeType\<close> is the string of its name.\<close>

fun size_type_text :: "SizeType \<Rightarrow> string" where
  "size_type_text XXS = ''XXS''"
| "size_type_text XS = ''XS''"
| "size_type_text S = ''S''"
| "size_type_text M = ''M''"
| "size_type_text L = ''L''"
| "size_type_text XL = ''XL''"
| "size_type_text XXL = ''XXL''"
| "size_type_text XXXL = ''XXXL''"

text \<open>The position of a tier in \<open>XXS < XS < S < M < L < XL < XXL < XXXL\<close>.\<close>

fun tier_rank :: "SizeType \<Rightarrow> nat" where
  "tier_rank XXS = 0"
| "tier_rank XS = 1"
| "tier_rank S = 2"
| "tier_rank M = 3"
| "tier_rank L = 4"
| "tier_rank XL = 5"
| "tier_rank XXL = 6"
| "tier_rank XXXL = 7"

definition version :: string where
  "version = ''moelist v0.0.1''"

definition newline :: string where
  "newline = [CHR 0x0A]"

text \<open>
  The localized words of the table header and of its totals row, as the UTF-8 bytes of the
  source file: U+6863 U+6848 (archive), U+4F53 U+79EF (size), U+4F53 U+79EF U+7C7B U+578B
  (size type), U+6587 U+4EF6 U+6570 (file count), U+6587 U+4EF6 U+5939 U+6570 (folder count),
  U+6269 U+5C55 U+540D (extensions), U+603B U+8BA1 (total). They are copied to the output
  and never measured.
\<close>

definition word_archive :: string where
  "word_archive = [CHR 0xE6, CHR 0xA1, CHR 0xA3, CHR 0xE6, CHR 0xA1, CHR 0x88]"

definition word_size :: string where
  "word_size = [CHR 0xE4, CHR 0xBD, CHR 0x93, CHR 0xE7, CHR 0xA7, CHR 0xAF]"

definition word_size_type :: string where
  "word_size_type = word_size @ [CHR 0xE7, CHR 0xB1, CHR 0xBB, CHR 0xE5, CHR 0x9E, CHR 0x8B]"

definition word_file_count :: string where
  "word_file_count = [CHR 0xE6, CHR 0x96, CHR 0x87, CHR 0xE4, CHR 0xBB, CHR 0xB6, CHR 0xE6, CHR 0x95, CHR 0xB0]"

definition word_folder_count :: string where
  "word_folder_count =
     [CHR 0xE6, CHR 0x96, CHR 0x87, CHR 0xE4, CHR 0xBB, CHR 0xB6, CHR 0xE5, CHR 0xA4, CHR 0xB9,
      CHR 0xE6, CHR 0x95, CHR 0xB0]"

definition word_extensions :: string where
  "word_extensions = [CHR 0xE6, CHR 0x89, CHR 0xA9, CHR 0xE5, CHR 0xB1, CHR 0x95, CHR 0xE5, CHR 0x90, CHR 0x8D]"

definition word_total :: string where
  "word_total = [CHR 0xE6, CHR 0x80, CHR 0xBB, CHR 0xE8, CHR 0xAE, CHR 0xA1]"

definition header :: string where
  "header = ''        Size Type Summary                  Extensions   Name''"

definition divider :: string where
  "divider = ''------------ ---- ------------------------ ------------ ------------------------''"

text \<open>The row of the preview format for one record.\<close>

definition preview_line :: "host \<Rightarrow> ArchiveInfo \<Rightarrow> string" where
  "preview_line h info =
     (let sz = toLocaleString h (Finite (i_size info));
          type = size_type_text (getSizeType (i_size info));
          summary = number_text h (Finite (fileCount info)) @ '' files, ''
                      @ number_text h (Finite (folderCount info)) @ '' folders'';
          extensions = js_join '', '' (exts info);
          nm = i_name info
      in padStart 12 sz @ '' '' @ padStart 4 type @ '' '' @ padEnd 24 summary @ '' ''
           @ padEnd 12 extensions @ '' '' @ nm)"

text \<open>
  The loop of \<open>getPreviewStyle\<close>, on (lines, totalSize, totalFiles, totalFolders). The three
  totals are doubles and \<open>+=\<close> adds doubles.
\<close>

fun preview_loop ::
  "host \<Rightarrow> ArchiveInfo list \<Rightarrow> string list \<times> js_number \<times> js_number \<times> js_number
     \<Rightarrow> string list \<times> js_number \<times> js_number \<times> js_number" where
  "preview_loop h [] st = st"
| "preview_loop h (info # infos) (lines, totalSize, totalFiles, totalFolders) =
     preview_loop h infos
       (lines @ [preview_line h info],
        js_add totalSize (i_size info), js_add totalFiles (fileCount info),
        js_add totalFolders (folderCount info))"

text \<open>The totals line of the preview format, from the three accumulators.\<close>

definition preview_totals :: "host \<Rightarrow> js_number \<Rightarrow> js_number \<Rightarrow> js_number \<Rightarrow> string" where
  "preview_totals h totalSize totalFiles totalFolders =
     padStart 12 (toLocaleString h totalSize) @ ''      '' @ number_text h totalFiles
       @ '' files, '' @ number_text h totalFolders @ '' folders''"

definition getPreviewStyle :: "host \<Rightarrow> ArchiveInfo list \<Rightarrow> string" where
  "getPreviewStyle h infos =
     (if length infos = 0 then []
      else
        (case preview_loop h infos ([header, divider], Finite 0, Finite 0, Finite 0) of
           (lines, totalSize, totalFiles, totalFolders) \<Rightarrow>
             js_join newline
               (lines @ [divider] @ [preview_totals h totalSize totalFiles totalFolders])))"

definition getCodeStyle :: "host \<Rightarrow> ArchiveInfo list \<Rightarrow> string" where
  "getCodeStyle h infos =
     (if length infos = 0 then []
      else
        (let quoteStart = ''[quote][font=courier new, courier, monospace]'';
             quoteEnd = ''[/font][/quote]'';
             content = getPreviewStyle h infos
         in js_join newline [quoteStart, version, content, quoteEnd]))"

definition tableStart :: string where
  "tableStart =
     ''[table=100%][tr]''
     @ ''[td]'' @ word_archive @ ''[/td]''
     @ ''[td][align=right]'' @ word_size @ ''[/align][/td]''
     @ ''[td][align=right]'' @ word_size_type @ ''[/align][/td]''
     @ ''[td][align=right]'' @ word_file_count @ ''[/align][/td]''
     @ ''[td][align=right]'' @ word_folder_count @ ''[/align][/td]''
     @ ''[td]'' @ word_extensions @ ''[/td][/tr]''"

definition table_line :: "host \<Rightarrow> ArchiveInfo \<Rightarrow> string" where
  "table_line h info =
     (let sz = toLocaleString h (Finite (i_size info));
          type = size_type_text (getSizeType (i_size info));
          extensions = js_join '', '' (exts info);
          nm = i_name info
      in ''[tr][td]'' @ nm @ ''[/td]''
         @ ''[td][align=right]'' @ sz @ ''[/align][/td]''
         @ ''[td][align=right]'' @ type @ ''[/align][/td]''
         @ ''[td][align=right]'' @ number_text h (Finite (fileCount info)) @ ''[/align][/td]''
         @ ''[td][align=right]'' @ number_text h (Finite (folderCount info)) @ ''[/align][/td]''
         @ ''[td]'' @ extensions @ ''[/td][/tr]'')"

text \<open>The loop of \<open>getTableStyle\<close>, on the same four variables, with the same additions.\<close>

fun table_loop ::
  "host \<Rightarrow> ArchiveInfo list \<Rightarrow> string list \<times> js_number \<times> js_number \<times> js_number
     \<Rightarrow> string list \<times> js_number \<times> js_number \<times> js_number" where
  "table_loop h [] st = st"
| "table_loop h (info # infos) (lines, totalSize, totalFiles, totalFolders) =
     table_loop h infos
       (lines @ [table_line h info],
        js_add totalSize (i_size info), js_add totalFiles (fileCount info),
        js_add totalFolders (folderCount info))"

text \<open>The totals row of the table format, from the three accumulators.\<close>

definition counter :: "host \<Rightarrow> js_number \<Rightarrow> js_number \<Rightarrow> js_number \<Rightarrow> string" where
  "counter h totalSize totalFiles totalFolders =
     ''[tr][td]'' @ word_total @ ''[/td]''
     @ ''[td][align=right]'' @ toLocaleString h totalSize @ ''[/align][/td]''
     @ ''[td][/td]''
     @ ''[td][align=right]'' @ number_text h totalFiles @ ''[/align][/td]''
     @ ''[td][align=right]'' @ number_text h totalFolders @ ''[/align][/td]''
     @ ''[td][/td][/tr]''
     @ ''[/table]''"

definition getTableStyle :: "host \<Rightarrow> ArchiveInfo list \<Rightarrow> string" where
  "getTableStyle h infos =
     (if length infos = 0 then []
      else
        (let quoteStart = ''[quote]'';
             quoteEnd = ''[/quote]''
         in case table_loop h infos ([quoteStart, version, tableStart], Finite 0, Finite 0, Finite 0) of
              (lines, totalSize, totalFiles, totalFolders) \<Rightarrow>
                js_join newline
                  (lines @ [counter h totalSize totalFiles totalFolders] @ [quoteEnd])))"

section \<open>The words of the claims about grouping\<close>

text \<open>An entry whose name ends in \<open>.zip\<close> or \<open>.rar\<close>.\<close>

definition is_container :: "FileWithPath \<Rightarrow> bool" where
  "is_container f = (endsWith (f_name f) ''.zip'' \<or> endsWith (f_name f) ''.rar'')"

text \<open>An entry that has a path starting with the separator.\<close>

definition has_rooted_path :: "FileWithPath \<Rightarrow> bool" where
  "has_rooted_path f = (case f_path f of None \<Rightarrow> False | Some p \<Rightarrow> startsWith p ''/'')"

text \<open>The first path segment after the leading separator, for an entry with such a path.\<close>

definition top_folder :: "FileWithPath \<Rightarrow> string" where
  "top_folder f = (case f_path f of None \<Rightarrow> [] | Some p \<Rightarrow> js_split CHR ''/'' p ! 1)"

text \<open>The members of a list without repetition, each at its first occurrence.\<close>

primrec first_seen :: "'a list \<Rightarrow> 'a list" where
  "first_seen [] = []"
| "first_seen (x # xs) = x # filter (\<lambda>y. y \<noteq> x) (first_seen xs)"

text \<open>The archive of one zip or rar entry.\<close>

definition container_archive :: "FileWithPath \<Rightarrow> Archive" where
  "container_archive f =
     \<lparr>a_name = f_name f, a_size = f_size f,
      a_type = (if endsWith (f_name f) ''.zip'' then zip else rar), a_files = Some [f]\<rparr>"

text \<open>
  The members of the top-level folder \<open>nm\<close> in a batch: the entries that are no zip or rar,
  have a path starting with the separator, and have \<open>nm\<close> as its first segment, in the order
  of the batch. The folder archive of \<open>nm\<close> has them as files and their sizes' sum as size.
\<close>

definition folder_members :: "FileWithPath list \<Rightarrow> string \<Rightarrow> FileWithPath list" where
  "folder_members files nm =
     filter (\<lambda>f. \<not> is_container f \<and> has_rooted_path f \<and> top_folder f = nm) files"

definition folder_archive :: "FileWithPath list \<Rightarrow> string \<Rightarrow> Archive" where
  "folder_archive files nm =
     \<lparr>a_name = nm, a_size = sum_list (map f_size (folder_members files nm)), a_type = folder,
      a_files = Some (folder_members files nm)\<rparr>"

text \<open>The files of an archive; none when the optional field is missing.\<close>

definition archive_files :: "Archive \<Rightarrow> FileWithPath list" where
  "archive_files a = (case a_files a of None \<Rightarrow> [] | Some files \<Rightarrow> files)"

section \<open>The words of the claim about folder counts\<close>

text \<open>
  The (depth, name) pairs among the intermediate path segments of the members: for a member
  whose path has more than 3 segments, the segments from index 2 up to but excluding the
  final one, each with its index.
\<close>

definition intermediate_segments :: "FileWithPath list \<Rightarrow> (nat \<times> string) set" where
  "intermediate_segments files =
     (\<Union>f \<in> set files.
        case f_path f of
          None \<Rightarrow> {}
        | Some p \<Rightarrow>
            (let paths = js_split CHR ''/'' p
             in if length paths > 3
                then (\<lambda>depth. (depth, paths ! depth)) ` {2 ..< length paths - 1}
                else {}))"

section \<open>Loop invariants\<close>

text \<open>
  The map that the second loop of \<open>preprocess\<close> has built after the entries \<open>others\<close>: the
  top-level folders in first-seen order, each with its members.
\<close>

definition grouped :: "FileWithPath list \<Rightarrow> (string \<times> FileWithPath list) list" where
  "grouped others =
     map (\<lambda>k. (k, filter (\<lambda>f. has_rooted_path f \<and> top_folder f = k) others))
       (first_seen (map top_folder (filter has_rooted_path others)))"

text \<open>
  The (depth, name) pairs that a folder tree holds, and the shape the tree keeps: no depth
  twice, no name twice in the set of a depth.
\<close>

definition tree_pairs :: "(nat \<times> string list) list \<Rightarrow> (nat \<times> string) set" where
  "tree_pairs t = {(d, n). \<exists>ns. (d, ns) \<in> set t \<and> n \<in> set ns}"

definition tree_ok :: "(nat \<times> string list) list \<Rightarrow> bool" where
  "tree_ok t = (distinct (map fst t) \<and> (\<forall>d ns. map_of t d = Some ns \<longrightarrow> distinct ns))"

section \<open>Sample inputs\<close>

text \<open>Two records to render.\<close>

definition info1 :: ArchiveInfo where
  "info1 = \<lparr>i_name = ''a.zip'', i_size = 3, exts = [''txt''], fileCount = 2, folderCount = 1\<rparr>"

definition info2 :: ArchiveInfo where
  "info2 = \<lparr>i_name = ''b'', i_size = 4, exts = [''png'', ''txt''], fileCount = 5, folderCount = 0\<rparr>"

text \<open>
  A host whose locale writes a number with its digits and no grouping, and two records of
  which the first has \<open>2 ^ 53\<close> files.
\<close>

definition sample_host :: host where
  "sample_host =
     \<lparr>toLocaleString = (\<lambda>x. case x of Infinity \<Rightarrow> ''Infinity'' | Finite n \<Rightarrow> show_nat n),
      printLarge = show_nat\<rparr>"

definition crowded :: ArchiveInfo where
  "crowded = \<lparr>i_name = ''big'', i_size = 1, exts = [], fileCount = 9007199254740992, folderCount = 0\<rparr>"

definition one_more :: ArchiveInfo where
  "one_more = \<lparr>i_name = ''one'', i_size = 2, exts = [], fileCount = 1, folderCount = 0\<rparr>"

text \<open>
  A zip container and a rar container as dropped files, their archives, and what the two
  decoders list for them: a directory, a file with an extension, a file with no dot in its
  name, and a file whose name ends in a dot.
\<close>

definition zip_file :: FileWithPath where
  "zip_file = \<lparr>f_name = ''pack.zip'', f_size = 100, f_path = Some ''pack.zip''\<rparr>"

definition zip_archive :: Archive where
  "zip_archive = \<lparr>a_name = ''pack.zip'', a_size = 100, a_type = zip, a_files = Some [zip_file]\<rparr>"

definition zip_index :: "FileWithPath \<Rightarrow> string list option" where
  "zip_index f = Some [''docs/'', ''docs/readme.txt'', ''docs/LICENSE'', ''docs/draft.'']"

definition rar_file :: FileWithPath where
  "rar_file = \<lparr>f_name = ''pack.rar'', f_size = 200, f_path = Some ''pack.rar''\<rparr>"

definition rar_archive :: Archive where
  "rar_archive = \<lparr>a_name = ''pack.rar'', a_size = 200, a_type = rar, a_files = Some [rar_file]\<rparr>"

definition rar_index :: "FileWithPath \<Rightarrow> FileHeader list option" where
  "rar_index f =
     Some [\<lparr>h_name = ''docs'', h_directory = True\<rparr>,
           \<lparr>h_name = ''docs/readme.txt'', h_directory = False\<rparr>,
           \<lparr>h_name = ''Makefile'', h_directory = False\<rparr>]"

text \<open>A folder archive with one member, whose name has no dot.\<close>

definition readme_archive :: Archive where
  "readme_archive =
     \<lparr>a_name = ''a'', a_size = 7, a_type = folder,
      a_files = Some [\<lparr>f_name = ''README'', f_size = 7, f_path = Some ''/a/README''\<rparr>]\<rparr>"

text \<open>
  The batch of the spec's example, a dropped directory \<open>a\<close>: once with the base names that
  a dropped file carries, once with the names as the example writes them.
\<close>

definition x_txt :: FileWithPath where
  "x_txt = \<lparr>f_name = ''x.txt'', f_size = 10, f_path = Some ''/a/x.txt''\<rparr>"

definition y_txt :: FileWithPath where
  "y_txt = \<lparr>f_name = ''y.txt'', f_size = 20, f_path = Some ''/a/y.txt''\<rparr>"

definition z_txt :: FileWithPath where
  "z_txt = \<lparr>f_name = ''z.txt'', f_size = 5, f_path = Some ''/a/sub/z.txt''\<rparr>"

definition example_batch :: "FileWithPath list" where
  "example_batch = [x_txt, y_txt, z_txt]"

definition example_batch_long_names :: "FileWithPath list" where
  "example_batch_long_names =
     [x_txt\<lparr>f_name := ''a/x.txt''\<rparr>, y_txt\<lparr>f_name := ''a/y.txt''\<rparr>, z_txt\<lparr>f_name := ''a/sub/z.txt''\<rparr>]"

text \<open>
  A batch in which containers, members of two folders and a loose file are interleaved.
\<close>

definition b_png :: FileWithPath where
  "b_png = \<lparr>f_name = ''n.png'', f_size = 8, f_path = Some ''/b/n.png''\<rparr>"

definition loose_file :: FileWithPath where
  "loose_file = \<lparr>f_name = ''notes.md'', f_size = 1, f_path = Some ''notes.md''\<rparr>"

definition interleaved_batch :: "FileWithPath list" where
  "interleaved_batch = [x_txt, zip_file, loose_file, b_png, rar_file, z_txt]"

text \<open>
  Two members that reach a folder \<open>x\<close> at depth 2, one of them through a folder \<open>x\<close> at
  depth 3 as well.
\<close>

definition nested_archive :: Archive where
  "nested_archive =
     \<lparr>a_name = ''r'', a_size = 3, a_type = folder,
      a_files = Some [\<lparr>f_name = ''f.txt'', f_size = 1, f_path = Some ''/r/x/x/f.txt''\<rparr>,
                      \<lparr>f_name = ''g.txt'', f_size = 2, f_path = Some ''/r/x/g.txt''\<rparr>]\<rparr>"

section \<open>The size classifier\<close>

text \<open>
  Claim C5. \<open>getSizeType\<close> at exactly 20 * 1024 * 1024 bytes is \<open>XS\<close>, not \<open>XXS\<close>: each
  threshold is an exclusive upper bound, so a size exactly on a boundary is in the higher
  tier, and the size one byte below is in the lower one.
\<close>

theorem getSizeType_boundaries:
  "getSizeType (20 * 1024 * 1024) = XS \<and> getSizeType (20 * 1024 * 1024 - 1) = XXS
   \<and> getSizeType (50 * 1024 * 1024) = S \<and> getSizeType (50 * 1024 * 1024 - 1) = XS
   \<and> getSizeType (100 * 1024 * 1024) = M \<and> getSizeType (100 * 1024 * 1024 - 1) = S
   \<and> getSizeType (175 * 1024 * 1024) = L \<and> getSizeType (175 * 1024 * 1024 - 1) = M
   \<and> getSizeType (300 * 1024 * 1024) = XL \<and> getSizeType (300 * 1024 * 1024 - 1) = L
   \<and> getSizeType (500 * 1024 * 1024) = XXL \<and> getSizeType (500 * 1024 * 1024 - 1) = XL
   \<and> getSizeType (800 * 1024 * 1024) = XXXL \<and> getSizeType (800 * 1024 * 1024 - 1) = XXL"
  by (simp add: getSizeType_def)

lemma sizeMB_mono: "a < b \<Longrightarrow> (of_nat a :: rat) / 1024 / 1024 < of_nat b / 1024 / 1024"
  by (simp add: divide_strict_right_mono)

text \<open>
  Claim C6. \<open>getSizeType\<close> is total and monotone: every non-negative byte count has one of
  the eight tiers, and if \<open>a < b\<close> then the tier of \<open>a\<close> is at most the tier of \<open>b\<close> in the
  order \<open>XXS < XS < S < M < L < XL < XXL < XXXL\<close>.
\<close>

theorem getSizeType_total_monotone:
  "getSizeType a \<in> {XXS, XS, S, M, L, XL, XXL, XXXL}
   \<and> (a < b \<longrightarrow> tier_rank (getSizeType a) \<le> tier_rank (getSizeType b))"
proof
  show "getSizeType a \<in> {XXS, XS, S, M, L, XL, XXL, XXXL}"
    by (cases "getSizeType a") simp_all
next
  show "a < b \<longrightarrow> tier_rank (getSizeType a) \<le> tier_rank (getSizeType b)"
  proof
    assume "a < b"
    then have "(of_nat a :: rat) / 1024 / 1024 < of_nat b / 1024 / 1024"
      by (rule sizeMB_mono)
    then show "tier_rank (getSizeType a) \<le> tier_rank (getSizeType b)"
      unfolding getSizeType_def Let_def by (simp split: if_splits)
  qed
qed

theorem getSizeType_total_monotone_witness:
  "(0::nat) < 20971520 \<and> getSizeType 0 = XXS \<and> getSizeType 20971520 = XS
   \<and> tier_rank (getSizeType 0) \<le> tier_rank (getSizeType 20971520)"
  using getSizeType_total_monotone [of 0 20971520] by (simp add: getSizeType_def)

section \<open>The report formats\<close>

text \<open>
  Claim C8. Rendering the empty list of records gives the empty string in each of the three
  formats: preview, quoted/code, and table.
\<close>

theorem render_empty:
  "getPreviewStyle h [] = '''' \<and> getCodeStyle h [] = '''' \<and> getTableStyle h [] = ''''"
  by (simp add: getPreviewStyle_def getCodeStyle_def getTableStyle_def)

lemma round_double_small: "n \<le> 2 ^ 53 \<Longrightarrow> round_double n = Finite n"
  by (simp add: round_double_def)

lemma js_add_small: "a + b \<le> 2 ^ 53 \<Longrightarrow> js_add (Finite a) b = Finite (a + b)"
  by (simp add: js_add_def round_double_small)

lemma number_text_small: "n \<le> 2 ^ 53 \<Longrightarrow> number_text h (Finite n) = show_nat n"
  by (simp add: number_text_def)

lemma preview_loop_eq:
  "a + sum_list (map i_size infos) \<le> 2 ^ 53 \<Longrightarrow>
   b + sum_list (map fileCount infos) \<le> 2 ^ 53 \<Longrightarrow>
   c + sum_list (map folderCount infos) \<le> 2 ^ 53 \<Longrightarrow>
   preview_loop h infos (ls, Finite a, Finite b, Finite c) =
     (ls @ map (preview_line h) infos, Finite (a + sum_list (map i_size infos)),
      Finite (b + sum_list (map fileCount infos)), Finite (c + sum_list (map folderCount infos)))"
proof (induction infos arbitrary: ls a b c)
  case Nil
  show ?case by simp
next
  case (Cons info infos)
  have "js_add (Finite a) (i_size info) = Finite (a + i_size info)"
    and "js_add (Finite b) (fileCount info) = Finite (b + fileCount info)"
    and "js_add (Finite c) (folderCount info) = Finite (c + folderCount info)"
    using Cons.prems by (simp_all add: js_add_small)
  then show ?case
    using Cons.prems
      Cons.IH [of "a + i_size info" "b + fileCount info" "c + folderCount info"
        "ls @ [preview_line h info]"]
    by (simp add: add.assoc)
qed

lemma table_loop_eq:
  "a + sum_list (map i_size infos) \<le> 2 ^ 53 \<Longrightarrow>
   b + sum_list (map fileCount infos) \<le> 2 ^ 53 \<Longrightarrow>
   c + sum_list (map folderCount infos) \<le> 2 ^ 53 \<Longrightarrow>
   table_loop h infos (ls, Finite a, Finite b, Finite c) =
     (ls @ map (table_line h) infos, Finite (a + sum_list (map i_size infos)),
      Finite (b + sum_list (map fileCount infos)), Finite (c + sum_list (map folderCount infos)))"
proof (induction infos arbitrary: ls a b c)
  case Nil
  show ?case by simp
next
  case (Cons info infos)
  have "js_add (Finite a) (i_size info) = Finite (a + i_size info)"
    and "js_add (Finite b) (fileCount info) = Finite (b + fileCount info)"
    and "js_add (Finite c) (folderCount info) = Finite (c + folderCount info)"
    using Cons.prems by (simp_all add: js_add_small)
  then show ?case
    using Cons.prems
      Cons.IH [of "a + i_size info" "b + fileCount info" "c + folderCount info"
        "ls @ [table_line h info]"]
    by (simp add: add.assoc)
qed

lemma show_nat_digit: "n < 10 \<Longrightarrow> show_nat n = [''0123456789'' ! n]"
  by (simp add: show_nat.simps)

lemma number_text_digit: "n < 10 \<Longrightarrow> number_text h (Finite n) = [''0123456789'' ! n]"
  by (simp add: number_text_small show_nat.simps)

lemma getPreviewStyle_eq:
  assumes "infos \<noteq> []"
    and "sum_list (map i_size infos) \<le> 2 ^ 53"
    and "sum_list (map fileCount infos) \<le> 2 ^ 53"
    and "sum_list (map folderCount infos) \<le> 2 ^ 53"
  shows "getPreviewStyle h infos =
     js_join newline
       ([header, divider] @ map (preview_line h) infos
          @ [divider,
             padStart 12 (toLocaleString h (Finite (sum_list (map i_size infos)))) @ ''      ''
               @ show_nat (sum_list (map fileCount infos)) @ '' files, ''
               @ show_nat (sum_list (map folderCount infos)) @ '' folders''])"
  using assms preview_loop_eq [of 0 infos 0 0 h "[header, divider]"]
  by (simp add: getPreviewStyle_def preview_totals_def number_text_small)

lemma getTableStyle_eq:
  assumes "infos \<noteq> []"
    and "sum_list (map i_size infos) \<le> 2 ^ 53"
    and "sum_list (map fileCount infos) \<le> 2 ^ 53"
    and "sum_list (map folderCount infos) \<le> 2 ^ 53"
  shows "getTableStyle h infos =
     js_join newline
       ([''[quote]'', version, tableStart] @ map (table_line h) infos
          @ [''[tr][td]'' @ [CHR 0xE6, CHR 0x80, CHR 0xBB, CHR 0xE8, CHR 0xAE, CHR 0xA1] @ ''[/td]''
               @ ''[td][align=right]'' @ toLocaleString h (Finite (sum_list (map i_size infos)))
               @ ''[/align][/td]''
               @ ''[td][/td]''
               @ ''[td][align=right]'' @ show_nat (sum_list (map fileCount infos)) @ ''[/align][/td]''
               @ ''[td][align=right]'' @ show_nat (sum_list (map folderCount infos)) @ ''[/align][/td]''
               @ ''[td][/td][/tr]''
               @ ''[/table]'',
             ''[/quote]''])"
  using assms table_loop_eq [of 0 infos 0 0 h "[''[quote]'', version, tableStart]"]
  by (simp add: getTableStyle_def counter_def word_total_def number_text_small)

text \<open>
  Claim C7, as amended. For every non-empty list of records whose sizes, whose file counts
  and whose folder counts each sum to at most \<open>2 ^ 53\<close>, and for each of the three formats,
  the totals row carries the sum of the \<open>size\<close> fields, the sum of the \<open>fileCount\<close> fields
  and the sum of the \<open>folderCount\<close> fields: it is the last row of the preview format, the
  last row of the preview inside the quoted format, and the row before the closing quote of
  the table format. The rows before it are the records in the order of the list.
\<close>

theorem totals_are_sums:
  "infos \<noteq> [] \<Longrightarrow>
   sum_list (map i_size infos) \<le> 2 ^ 53 \<Longrightarrow>
   sum_list (map fileCount infos) \<le> 2 ^ 53 \<Longrightarrow>
   sum_list (map folderCount infos) \<le> 2 ^ 53 \<Longrightarrow>
   getPreviewStyle h infos =
     js_join newline
       ([header, divider] @ map (preview_line h) infos
          @ [divider,
             padStart 12 (toLocaleString h (Finite (sum_list (map i_size infos)))) @ ''      ''
               @ show_nat (sum_list (map fileCount infos)) @ '' files, ''
               @ show_nat (sum_list (map folderCount infos)) @ '' folders''])
   \<and> getCodeStyle h infos =
     js_join newline
       [''[quote][font=courier new, courier, monospace]'', version,
        js_join newline
          ([header, divider] @ map (preview_line h) infos
             @ [divider,
                padStart 12 (toLocaleString h (Finite (sum_list (map i_size infos)))) @ ''      ''
                  @ show_nat (sum_list (map fileCount infos)) @ '' files, ''
                  @ show_nat (sum_list (map folderCount infos)) @ '' folders'']),
        ''[/font][/quote]'']
   \<and> getTableStyle h infos =
     js_join newline
       ([''[quote]'', version, tableStart] @ map (table_line h) infos
          @ [''[tr][td]'' @ [CHR 0xE6, CHR 0x80, CHR 0xBB, CHR 0xE8, CHR 0xAE, CHR 0xA1] @ ''[/td]''
               @ ''[td][align=right]'' @ toLocaleString h (Finite (sum_list (map i_size infos)))
               @ ''[/align][/td]''
               @ ''[td][/td]''
               @ ''[td][align=right]'' @ show_nat (sum_list (map fileCount infos)) @ ''[/align][/td]''
               @ ''[td][align=right]'' @ show_nat (sum_list (map folderCount infos)) @ ''[/align][/td]''
               @ ''[td][/td][/tr]''
               @ ''[/table]'',
             ''[/quote]''])"
  using getPreviewStyle_eq [of infos h] getTableStyle_eq [of infos h]
  by (simp add: getCodeStyle_def)

lemmas report_constants =
  header_def divider_def version_def newline_def tableStart_def word_archive_def word_size_def
  word_size_type_def word_file_count_def word_folder_count_def word_extensions_def

lemma sample_rows:
  "preview_line sample_host info1 = ''           3  XXS 2 files, 1 folders       txt          a.zip''"
  "preview_line sample_host info2 = ''           4  XXS 5 files, 0 folders       png, txt     b''"
  "table_line sample_host info1 =
     ''[tr][td]a.zip[/td][td][align=right]3[/align][/td][td][align=right]XXS[/align][/td][td][align=right]2[/align][/td][td][align=right]1[/align][/td][td]txt[/td][/tr]''"
  "table_line sample_host info2 =
     ''[tr][td]b[/td][td][align=right]4[/align][/td][td][align=right]XXS[/align][/td][td][align=right]5[/align][/td][td][align=right]0[/align][/td][td]png, txt[/td][/tr]''"
  by (simp_all add: info1_def info2_def preview_line_def table_line_def sample_host_def
      number_text_digit show_nat_digit padStart_def padEnd_def getSizeType_def eval_nat_numeral)

lemma sample_sums:
  "sum_list (map i_size [info1, info2]) = 7"
  "sum_list (map fileCount [info1, info2]) = 7"
  "sum_list (map folderCount [info1, info2]) = 1"
  by (simp_all add: info1_def info2_def)

theorem totals_are_sums_witness:
  "[info1, info2] \<noteq> []
   \<and> sum_list (map i_size [info1, info2]) = 7
   \<and> sum_list (map fileCount [info1, info2]) = 7
   \<and> sum_list (map folderCount [info1, info2]) = 1
   \<and> getPreviewStyle sample_host [info1, info2] =
       ''        Size Type Summary                  Extensions   Name'' @ [CHR 0x0A]
       @ ''------------ ---- ------------------------ ------------ ------------------------'' @ [CHR 0x0A]
       @ ''           3  XXS 2 files, 1 folders       txt          a.zip'' @ [CHR 0x0A]
       @ ''           4  XXS 5 files, 0 folders       png, txt     b'' @ [CHR 0x0A]
       @ ''------------ ---- ------------------------ ------------ ------------------------'' @ [CHR 0x0A]
       @ ''           7      7 files, 1 folders''
   \<and> getCodeStyle sample_host [info1, info2] =
       ''[quote][font=courier new, courier, monospace]'' @ [CHR 0x0A]
       @ ''moelist v0.0.1'' @ [CHR 0x0A]
       @ ''        Size Type Summary                  Extensions   Name'' @ [CHR 0x0A]
       @ ''------------ ---- ------------------------ ------------ ------------------------'' @ [CHR 0x0A]
       @ ''           3  XXS 2 files, 1 folders       txt          a.zip'' @ [CHR 0x0A]
       @ ''           4  XXS 5 files, 0 folders       png, txt     b'' @ [CHR 0x0A]
       @ ''------------ ---- ------------------------ ------------ ------------------------'' @ [CHR 0x0A]
       @ ''           7      7 files, 1 folders'' @ [CHR 0x0A]
       @ ''[/font][/quote]''
   \<and> getTableStyle sample_host [info1, info2] =
       ''[quote]'' @ [CHR 0x0A]
       @ ''moelist v0.0.1'' @ [CHR 0x0A]
       @ ''[table=100%][tr][td]'' @ [CHR 0xE6, CHR 0xA1, CHR 0xA3, CHR 0xE6, CHR 0xA1, CHR 0x88] @ ''[/td][td][align=right]'' @ [CHR 0xE4, CHR 0xBD, CHR 0x93, CHR 0xE7, CHR 0xA7, CHR 0xAF] @ ''[/align][/td][td][align=right]'' @ [CHR 0xE4, CHR 0xBD, CHR 0x93, CHR 0xE7, CHR 0xA7, CHR 0xAF, CHR 0xE7, CHR 0xB1, CHR 0xBB, CHR 0xE5, CHR 0x9E, CHR 0x8B] @ ''[/align][/td][td][align=right]'' @ [CHR 0xE6, CHR 0x96, CHR 0x87, CHR 0xE4, CHR 0xBB, CHR 0xB6, CHR 0xE6, CHR 0x95, CHR 0xB0] @ ''[/align][/td][td][align=right]'' @ [CHR 0xE6, CHR 0x96, CHR 0x87, CHR 0xE4, CHR 0xBB, CHR 0xB6, CHR 0xE5, CHR 0xA4, CHR 0xB9, CHR 0xE6, CHR 0x95, CHR 0xB0] @ ''[/align][/td][td]'' @ [CHR 0xE6, CHR 0x89, CHR 0xA9, CHR 0xE5, CHR 0xB1, CHR 0x95, CHR 0xE5, CHR 0x90, CHR 0x8D] @ ''[/td][/tr]'' @ [CHR 0x0A]
       @ ''[tr][td]a.zip[/td][td][align=right]3[/align][/td][td][align=right]XXS[/align][/td][td][align=right]2[/align][/td][td][align=right]1[/align][/td][td]txt[/td][/tr]'' @ [CHR 0x0A]
       @ ''[tr][td]b[/td][td][align=right]4[/align][/td][td][align=right]XXS[/align][/td][td][align=right]5[/align][/td][td][align=right]0[/align][/td][td]png, txt[/td][/tr]'' @ [CHR 0x0A]
       @ ''[tr][td]'' @ [CHR 0xE6, CHR 0x80, CHR 0xBB, CHR 0xE8, CHR 0xAE, CHR 0xA1] @ ''[/td][td][align=right]7[/align][/td][td][/td][td][align=right]7[/align][/td][td][align=right]1[/align][/td][td][/td][/tr][/table]'' @ [CHR 0x0A]
       @ ''[/quote]''"
proof -
  have ne: "[info1, info2] \<noteq> []"
    by simp
  have b: "sum_list (map i_size [info1, info2]) \<le> 2 ^ 53"
    "sum_list (map fileCount [info1, info2]) \<le> 2 ^ 53"
    "sum_list (map folderCount [info1, info2]) \<le> 2 ^ 53"
    unfolding sample_sums by simp_all
  have t: "toLocaleString sample_host (Finite 7) = ''7''" "show_nat 7 = ''7''"
    "show_nat (Suc 0) = ''1''"
    by (simp_all add: sample_host_def show_nat_digit)
  have pad: "padStart 12 ''7'' = ''           7''"
    by (simp add: padStart_def eval_nat_numeral)
  note sums = totals_are_sums [OF ne b, of sample_host, unfolded sample_sums]
  have "getPreviewStyle sample_host [info1, info2] =
       ''        Size Type Summary                  Extensions   Name'' @ [CHR 0x0A]
       @ ''------------ ---- ------------------------ ------------ ------------------------'' @ [CHR 0x0A]
       @ ''           3  XXS 2 files, 1 folders       txt          a.zip'' @ [CHR 0x0A]
       @ ''           4  XXS 5 files, 0 folders       png, txt     b'' @ [CHR 0x0A]
       @ ''------------ ---- ------------------------ ------------ ------------------------'' @ [CHR 0x0A]
       @ ''           7      7 files, 1 folders''"
    using sums [THEN conjunct1] by (simp add: sample_rows t pad report_constants)
  moreover have "getCodeStyle sample_host [info1, info2] =
       ''[quote][font=courier new, courier, monospace]'' @ [CHR 0x0A]
       @ ''moelist v0.0.1'' @ [CHR 0x0A]
       @ ''        Size Type Summary                  Extensions   Name'' @ [CHR 0x0A]
       @ ''------------ ---- ------------------------ ------------ ------------------------'' @ [CHR 0x0A]
       @ ''           3  XXS 2 files, 1 folders       txt          a.zip'' @ [CHR 0x0A]
       @ ''           4  XXS 5 files, 0 folders       png, txt     b'' @ [CHR 0x0A]
       @ ''------------ ---- ------------------------ ------------ ------------------------'' @ [CHR 0x0A]
       @ ''           7      7 files, 1 folders'' @ [CHR 0x0A]
       @ ''[/font][/quote]''"
    using sums [THEN conjunct2, THEN conjunct1] by (simp add: sample_rows t pad report_constants)
  moreover have "getTableStyle sample_host [info1, info2] =
       ''[quote]'' @ [CHR 0x0A]
       @ ''moelist v0.0.1'' @ [CHR 0x0A]
       @ ''[table=100%][tr][td]'' @ [CHR 0xE6, CHR 0xA1, CHR 0xA3, CHR 0xE6, CHR 0xA1, CHR 0x88] @ ''[/td][td][align=right]'' @ [CHR 0xE4, CHR 0xBD, CHR 0x93, CHR 0xE7, CHR 0xA7, CHR 0xAF] @ ''[/align][/td][td][align=right]'' @ [CHR 0xE4, CHR 0xBD, CHR 0x93, CHR 0xE7, CHR 0xA7, CHR 0xAF, CHR 0xE7, CHR 0xB1, CHR 0xBB, CHR 0xE5, CHR 0x9E, CHR 0x8B] @ ''[/align][/td][td][align=right]'' @ [CHR 0xE6, CHR 0x96, CHR 0x87, CHR 0xE4, CHR 0xBB, CHR 0xB6, CHR 0xE6, CHR 0x95, CHR 0xB0] @ ''[/align][/td][td][align=right]'' @ [CHR 0xE6, CHR 0x96, CHR 0x87, CHR 0xE4, CHR 0xBB, CHR 0xB6, CHR 0xE5, CHR 0xA4, CHR 0xB9, CHR 0xE6, CHR 0x95, CHR 0xB0] @ ''[/align][/td][td]'' @ [CHR 0xE6, CHR 0x89, CHR 0xA9, CHR 0xE5, CHR 0xB1, CHR 0x95, CHR 0xE5, CHR 0x90, CHR 0x8D] @ ''[/td][/tr]'' @ [CHR 0x0A]
       @ ''[tr][td]a.zip[/td][td][align=right]3[/align][/td][td][align=right]XXS[/align][/td][td][align=right]2[/align][/td][td][align=right]1[/align][/td][td]txt[/td][/tr]'' @ [CHR 0x0A]
       @ ''[tr][td]b[/td][td][align=right]4[/align][/td][td][align=right]XXS[/align][/td][td][align=right]5[/align][/td][td][align=right]0[/align][/td][td]png, txt[/td][/tr]'' @ [CHR 0x0A]
       @ ''[tr][td]'' @ [CHR 0xE6, CHR 0x80, CHR 0xBB, CHR 0xE8, CHR 0xAE, CHR 0xA1] @ ''[/td][td][align=right]7[/align][/td][td][/td][td][align=right]7[/align][/td][td][align=right]1[/align][/td][td][/td][/tr][/table]'' @ [CHR 0x0A]
       @ ''[/quote]''"
    using sums [THEN conjunct2, THEN conjunct2] by (simp add: sample_rows t pad report_constants)
  ultimately show ?thesis
    using ne by (simp only: sample_sums simp_thms)
qed

lemma ulp_exp_above: "ulp_exp 9007199254740993 = 1"
  by (simp add: ulp_exp.simps [of 9007199254740993] ulp_exp.simps [of 4503599627370496])

lemma round_double_above: "round_double 9007199254740993 = Finite 9007199254740992"
  by (simp add: round_double_def ulp_exp_above Let_def)

lemma crowded_adds:
  "js_add (Finite 0) 9007199254740992 = Finite 9007199254740992"
  "js_add (Finite 9007199254740992) (Suc 0) = Finite 9007199254740992"
  "js_add (Finite 0) (Suc 0) = Finite (Suc 0)"
  "js_add (Finite (Suc 0)) 2 = Finite 3"
  "js_add (Finite 0) 0 = Finite 0"
  using round_double_above by (simp_all add: js_add_def round_double_small)

lemma crowded_fields:
  "i_size crowded = 1" "fileCount crowded = 9007199254740992" "folderCount crowded = 0"
  "i_size one_more = 2" "fileCount one_more = 1" "folderCount one_more = 0"
  by (simp_all add: crowded_def one_more_def)

lemma show_nat_2_53: "show_nat 9007199254740992 = ''9007199254740992''"
  by (simp add: show_nat.simps)

lemma show_nat_2_53_1: "show_nat 9007199254740993 = ''9007199254740993''"
  by (simp add: show_nat.simps)

lemma sample_pads:
  "padStart 12 ''1'' = ''           1''"
  "padStart 12 ''2'' = ''           2''"
  "padStart 12 ''3'' = ''           3''"
  "padStart 4 ''XXS'' = '' XXS''"
  "padEnd 24 ''9007199254740992 files, 0 folders'' = ''9007199254740992 files, 0 folders''"
  "padEnd 24 ''1 files, 0 folders'' = ''1 files, 0 folders      ''"
  "padEnd 12 [] = ''            ''"
  by (simp_all add: padStart_def padEnd_def eval_nat_numeral)

lemma sample_numbers:
  "toLocaleString sample_host (Finite (Suc 0)) = ''1''"
  "toLocaleString sample_host (Finite 2) = ''2''"
  "toLocaleString sample_host (Finite 3) = ''3''"
  "number_text sample_host (Finite 9007199254740992) = ''9007199254740992''"
  "number_text sample_host (Finite (Suc 0)) = ''1''"
  "number_text sample_host (Finite 0) = ''0''"
  "getSizeType (Suc 0) = XXS"
  "getSizeType 2 = XXS"
  by (simp_all add: sample_host_def show_nat_digit number_text_small show_nat_2_53 getSizeType_def)

lemma crowded_rows:
  "preview_line sample_host crowded = ''           1  XXS 9007199254740992 files, 0 folders              big''"
  "preview_line sample_host one_more = ''           2  XXS 1 files, 0 folders                    one''"
  "table_line sample_host crowded =
     ''[tr][td]big[/td][td][align=right]1[/align][/td][td][align=right]XXS[/align][/td][td][align=right]9007199254740992[/align][/td][td][align=right]0[/align][/td][td][/td][/tr]''"
  "table_line sample_host one_more =
     ''[tr][td]one[/td][td][align=right]2[/align][/td][td][align=right]XXS[/align][/td][td][align=right]1[/align][/td][td][align=right]0[/align][/td][td][/td][/tr]''"
  by (simp_all add: crowded_def one_more_def preview_line_def table_line_def sample_numbers
      sample_pads)

text \<open>
  Claim C7 fails where a sum passes \<open>2 ^ 53\<close>. The file counts \<open>2 ^ 53\<close> and \<open>1\<close> sum to
  9007199254740993, which is no double: the running total stays at \<open>2 ^ 53\<close>, and each of the
  three formats writes 9007199254740992 files in its totals row.
\<close>

theorem totals_beyond_2_53_counterexample:
  "sum_list (map fileCount [crowded, one_more]) = 9007199254740993
   \<and> show_nat (sum_list (map fileCount [crowded, one_more])) = ''9007199254740993''
   \<and> getPreviewStyle sample_host [crowded, one_more] =
       ''        Size Type Summary                  Extensions   Name'' @ [CHR 0x0A]
       @ ''------------ ---- ------------------------ ------------ ------------------------'' @ [CHR 0x0A]
       @ ''           1  XXS 9007199254740992 files, 0 folders              big'' @ [CHR 0x0A]
       @ ''           2  XXS 1 files, 0 folders                    one'' @ [CHR 0x0A]
       @ ''------------ ---- ------------------------ ------------ ------------------------'' @ [CHR 0x0A]
       @ ''           3      9007199254740992 files, 0 folders''
   \<and> getCodeStyle sample_host [crowded, one_more] =
       ''[quote][font=courier new, courier, monospace]'' @ [CHR 0x0A]
       @ ''moelist v0.0.1'' @ [CHR 0x0A]
       @ ''        Size Type Summary                  Extensions   Name'' @ [CHR 0x0A]
       @ ''------------ ---- ------------------------ ------------ ------------------------'' @ [CHR 0x0A]
       @ ''           1  XXS 9007199254740992 files, 0 folders              big'' @ [CHR 0x0A]
       @ ''           2  XXS 1 files, 0 folders                    one'' @ [CHR 0x0A]
       @ ''------------ ---- ------------------------ ------------ ------------------------'' @ [CHR 0x0A]
       @ ''           3      9007199254740992 files, 0 folders'' @ [CHR 0x0A]
       @ ''[/font][/quote]''
   \<and> getTableStyle sample_host [crowded, one_more] =
       ''[quote]'' @ [CHR 0x0A]
       @ ''moelist v0.0.1'' @ [CHR 0x0A]
       @ ''[table=100%][tr][td]'' @ [CHR 0xE6, CHR 0xA1, CHR 0xA3, CHR 0xE6, CHR 0xA1, CHR 0x88] @ ''[/td][td][align=right]'' @ [CHR 0xE4, CHR 0xBD, CHR 0x93, CHR 0xE7, CHR 0xA7, CHR 0xAF] @ ''[/align][/td][td][align=right]'' @ [CHR 0xE4, CHR 0xBD, CHR 0x93, CHR 0xE7, CHR 0xA7, CHR 0xAF, CHR 0xE7, CHR 0xB1, CHR 0xBB, CHR 0xE5, CHR 0x9E, CHR 0x8B] @ ''[/align][/td][td][align=right]'' @ [CHR 0xE6, CHR 0x96, CHR 0x87, CHR 0xE4, CHR 0xBB, CHR 0xB6, CHR 0xE6, CHR 0x95, CHR 0xB0] @ ''[/align][/td][td][align=right]'' @ [CHR 0xE6, CHR 0x96, CHR 0x87, CHR 0xE4, CHR 0xBB, CHR 0xB6, CHR 0xE5, CHR 0xA4, CHR 0xB9, CHR 0xE6, CHR 0x95, CHR 0xB0] @ ''[/align][/td][td]'' @ [CHR 0xE6, CHR 0x89, CHR 0xA9, CHR 0xE5, CHR 0xB1, CHR 0x95, CHR 0xE5, CHR 0x90, CHR 0x8D] @ ''[/td][/tr]'' @ [CHR 0x0A]
       @ ''[tr][td]big[/td][td][align=right]1[/align][/td][td][align=right]XXS[/align][/td][td][align=right]9007199254740992[/align][/td][td][align=right]0[/align][/td][td][/td][/tr]'' @ [CHR 0x0A]
       @ ''[tr][td]one[/td][td][align=right]2[/align][/td][td][align=right]XXS[/align][/td][td][align=right]1[/align][/td][td][align=right]0[/align][/td][td][/td][/tr]'' @ [CHR 0x0A]
       @ ''[tr][td]'' @ [CHR 0xE6, CHR 0x80, CHR 0xBB, CHR 0xE8, CHR 0xAE, CHR 0xA1] @ ''[/td][td][align=right]3[/align][/td][td][/td][td][align=right]9007199254740992[/align][/td][td][align=right]0[/align][/td][td][/td][/tr][/table]'' @ [CHR 0x0A]
       @ ''[/quote]''"
proof -
  have s: "sum_list (map fileCount [crowded, one_more]) = 9007199254740993"
    by (simp add: crowded_fields)
  have p: "getPreviewStyle sample_host [crowded, one_more] =
       ''        Size Type Summary                  Extensions   Name'' @ [CHR 0x0A]
       @ ''------------ ---- ------------------------ ------------ ------------------------'' @ [CHR 0x0A]
       @ ''           1  XXS 9007199254740992 files, 0 folders              big'' @ [CHR 0x0A]
       @ ''           2  XXS 1 files, 0 folders                    one'' @ [CHR 0x0A]
       @ ''------------ ---- ------------------------ ------------ ------------------------'' @ [CHR 0x0A]
       @ ''           3      9007199254740992 files, 0 folders''"
    by (simp add: getPreviewStyle_def crowded_fields crowded_adds crowded_rows preview_totals_def
        sample_numbers sample_pads report_constants)
  have c: "getCodeStyle sample_host [crowded, one_more] =
       ''[quote][font=courier new, courier, monospace]'' @ [CHR 0x0A]
       @ ''moelist v0.0.1'' @ [CHR 0x0A]
       @ ''        Size Type Summary                  Extensions   Name'' @ [CHR 0x0A]
       @ ''------------ ---- ------------------------ ------------ ------------------------'' @ [CHR 0x0A]
       @ ''           1  XXS 9007199254740992 files, 0 folders              big'' @ [CHR 0x0A]
       @ ''           2  XXS 1 files, 0 folders                    one'' @ [CHR 0x0A]
       @ ''------------ ---- ------------------------ ------------ ------------------------'' @ [CHR 0x0A]
       @ ''           3      9007199254740992 files, 0 folders'' @ [CHR 0x0A]
       @ ''[/font][/quote]''"
    by (simp add: getCodeStyle_def p report_constants)
  have tb: "getTableStyle sample_host [crowded, one_more] =
       ''[quote]'' @ [CHR 0x0A]
       @ ''moelist v0.0.1'' @ [CHR 0x0A]
       @ ''[table=100%][tr][td]'' @ [CHR 0xE6, CHR 0xA1, CHR 0xA3, CHR 0xE6, CHR 0xA1, CHR 0x88] @ ''[/td][td][align=right]'' @ [CHR 0xE4, CHR 0xBD, CHR 0x93, CHR 0xE7, CHR 0xA7, CHR 0xAF] @ ''[/align][/td][td][align=right]'' @ [CHR 0xE4, CHR 0xBD, CHR 0x93, CHR 0xE7, CHR 0xA7, CHR 0xAF, CHR 0xE7, CHR 0xB1, CHR 0xBB, CHR 0xE5, CHR 0x9E, CHR 0x8B] @ ''[/align][/td][td][align=right]'' @ [CHR 0xE6, CHR 0x96, CHR 0x87, CHR 0xE4, CHR 0xBB, CHR 0xB6, CHR 0xE6, CHR 0x95, CHR 0xB0] @ ''[/align][/td][td][align=right]'' @ [CHR 0xE6, CHR 0x96, CHR 0x87, CHR 0xE4, CHR 0xBB, CHR 0xB6, CHR 0xE5, CHR 0xA4, CHR 0xB9, CHR 0xE6, CHR 0x95, CHR 0xB0] @ ''[/align][/td][td]'' @ [CHR 0xE6, CHR 0x89, CHR 0xA9, CHR 0xE5, CHR 0xB1, CHR 0x95, CHR 0xE5, CHR 0x90, CHR 0x8D] @ ''[/td][/tr]'' @ [CHR 0x0A]
       @ ''[tr][td]big[/td][td][align=right]1[/align][/td][td][align=right]XXS[/align][/td][td][align=right]9007199254740992[/align][/td][td][align=right]0[/align][/td][td][/td][/tr]'' @ [CHR 0x0A]
       @ ''[tr][td]one[/td][td][align=right]2[/align][/td][td][align=right]XXS[/align][/td][td][align=right]1[/align][/td][td][align=right]0[/align][/td][td][/td][/tr]'' @ [CHR 0x0A]
       @ ''[tr][td]'' @ [CHR 0xE6, CHR 0x80, CHR 0xBB, CHR 0xE8, CHR 0xAE, CHR 0xA1] @ ''[/td][td][align=right]3[/align][/td][td][/td][td][align=right]9007199254740992[/align][/td][td][align=right]0[/align][/td][td][/td][/tr][/table]'' @ [CHR 0x0A]
       @ ''[/quote]''"
    by (simp add: getTableStyle_def crowded_fields crowded_adds crowded_rows counter_def
        word_total_def sample_numbers report_constants)
  show ?thesis
    unfolding s by (simp only: p c tb show_nat_2_53_1 simp_thms)
qed

section \<open>Extensions\<close>

lemma set_set_add: "set (set_add x xs) = insert x (set xs)"
  by (auto simp: set_add_def)

lemma add_ext_no_empty: "[] \<notin> set extensions \<Longrightarrow> [] \<notin> set (add_ext nm extensions)"
  by (auto simp: add_ext_def set_set_add split: option.splits)

lemma zip_loop_no_empty:
  "[] \<notin> set es \<Longrightarrow> [] \<notin> set (snd (snd (zip_loop paths (fc, dc, es))))"
  by (induction paths arbitrary: fc dc es) (simp_all add: add_ext_no_empty)

lemma rar_loop_no_empty:
  "[] \<notin> set es \<Longrightarrow> [] \<notin> set (snd (snd (rar_loop hs (fc, dc, es))))"
  by (induction hs arbitrary: fc dc es) (simp_all add: add_ext_no_empty)

lemma folder_step_no_empty:
  "[] \<notin> set (snd st) \<Longrightarrow> folder_step f st = Inr st' \<Longrightarrow> [] \<notin> set (snd st')"
  by (auto simp: folder_step_def Let_def add_ext_no_empty split: option.splits)

lemma folder_loop_no_empty:
  "[] \<notin> set (snd st) \<Longrightarrow> folder_loop fs st = Inr st' \<Longrightarrow> [] \<notin> set (snd st')"
proof (induction fs arbitrary: st)
  case Nil
  then show ?case by simp
next
  case (Cons f fs)
  then show ?case
    by (auto split: sum.splits dest: folder_step_no_empty)
qed

lemma js_split_not_Nil: "js_split c s \<noteq> []"
  by (induction s) (auto split: list.splits)

lemma js_split_snoc_sep: "js_split c (s @ [c]) = js_split c s @ [[]]"
proof (induction s)
  case Nil
  show ?case by simp
next
  case (Cons x s)
  obtain w ws where "js_split c s = w # ws"
    using js_split_not_Nil [of c s] by (cases "js_split c s") auto
  with Cons show ?case by simp
qed

lemma last_js_split_sep: "last (js_split c (s @ [c])) = []"
  by (simp add: js_split_snoc_sep)

lemma readZipfile_no_empty:
  assumes "readZipfile loadAsync a = Inr info"
  shows "[] \<notin> set (exts info)"
proof -
  from assms obtain paths where "exts info = snd (snd (zip_loop paths (0, 0, [])))"
    unfolding readZipfile_def
    by (auto split: option.splits list.splits prod.splits) (metis snd_conv)
  then show ?thesis
    using zip_loop_no_empty [of "[]" paths 0 0] by simp
qed

lemma readRarFile_no_empty:
  assumes "readRarFile getFileList a = Inr info"
  shows "[] \<notin> set (exts info)"
proof -
  from assms obtain hs where "exts info = snd (snd (rar_loop hs (0, 0, [])))"
    unfolding readRarFile_def
    by (auto split: option.splits list.splits prod.splits) (metis snd_conv)
  then show ?thesis
    using rar_loop_no_empty [of "[]" hs 0 0] by simp
qed

lemma readFolder_no_empty:
  assumes "readFolder a = Inr info"
  shows "[] \<notin> set (exts info)"
proof -
  from assms obtain fs st where "folder_loop fs ([], []) = Inr st" and "exts info = snd st"
    unfolding readFolder_def by (auto split: option.splits sum.splits prod.splits)
  then show ?thesis
    using folder_loop_no_empty [of "([], [])" fs st] by simp
qed

text \<open>
  Claim C10. For an archive of any type, the \<open>exts\<close> of the produced record never contains
  the empty string; a member name that ends in a dot contributes no extension.
\<close>

theorem exts_never_empty_string:
  "(readArchiveInfo loadAsync getFileList a = Inr info \<longrightarrow> [] \<notin> set (exts info))
   \<and> add_ext (nm @ ''.'') extensions = extensions"
proof
  show "readArchiveInfo loadAsync getFileList a = Inr info \<longrightarrow> [] \<notin> set (exts info)"
    unfolding readArchiveInfo_def
    using readZipfile_no_empty readRarFile_no_empty readFolder_no_empty
    by (auto split: if_splits)
next
  show "add_ext (nm @ ''.'') extensions = extensions"
    by (simp add: add_ext_def pop_def js_split_not_Nil last_js_split_sep)
qed

lemma zip_sample:
  "readArchiveInfo zip_index rar_index zip_archive =
     Inr \<lparr>i_name = ''pack.zip'', i_size = 100, exts = [''txt'', ''docs/LICENSE''],
          fileCount = 3, folderCount = 1\<rparr>"
  by (simp add: readArchiveInfo_def readZipfile_def zip_archive_def zip_index_def endsWith_def
      add_ext_def pop_def set_add_def)

theorem exts_never_empty_string_witness:
  "readArchiveInfo zip_index rar_index zip_archive =
     Inr \<lparr>i_name = ''pack.zip'', i_size = 100, exts = [''txt'', ''docs/LICENSE''],
          fileCount = 3, folderCount = 1\<rparr>
   \<and> [] \<notin> set [''txt'', ''docs/LICENSE'']
   \<and> add_ext ''docs/draft.'' [''txt''] = [''txt'']"
  using zip_sample
    exts_never_empty_string [of zip_index rar_index zip_archive
      "\<lparr>i_name = ''pack.zip'', i_size = 100, exts = [''txt'', ''docs/LICENSE''],
          fileCount = 3, folderCount = 1\<rparr>" "''docs/draft''" "[''txt'']"]
  by simp

lemma js_split_no_sep: "c \<notin> set s \<Longrightarrow> js_split c s = [s]"
  by (induction s) auto

lemma add_ext_no_dot:
  "CHR ''.'' \<notin> set nm \<Longrightarrow> nm \<noteq> [] \<Longrightarrow> add_ext nm extensions = set_add nm extensions"
  by (simp add: add_ext_def pop_def js_split_no_sep)

text \<open>
  Claim C1 says that a member path with no dot yields no extension and adds nothing to
  \<open>exts\<close>. The split of a name with no dot is the name itself, which passes the test
  \<open>if (ext)\<close> unless it is empty, so the three readers add the whole name.
\<close>

theorem no_dot_name_is_counted:
  "readZipfile zip_index zip_archive =
     Inr \<lparr>i_name = ''pack.zip'', i_size = 100, exts = [''txt'', ''docs/LICENSE''],
          fileCount = 3, folderCount = 1\<rparr>
   \<and> readRarFile rar_index rar_archive =
     Inr \<lparr>i_name = ''pack.rar'', i_size = 200, exts = [''txt'', ''Makefile''],
          fileCount = 2, folderCount = 1\<rparr>
   \<and> readFolder readme_archive =
     Inr \<lparr>i_name = ''a'', i_size = 7, exts = [''README''], fileCount = 1, folderCount = 0\<rparr>"
  by (simp add: readZipfile_def zip_archive_def zip_index_def endsWith_def
      readRarFile_def rar_archive_def rar_index_def readFolder_def readme_archive_def
      folder_step_def add_ext_def pop_def set_add_def)

section \<open>The example of the specification\<close>

lemma example_preprocess:
  "preprocess example_batch =
     [\<lparr>a_name = ''a'', a_size = 35, a_type = folder, a_files = Some example_batch\<rparr>]"
  by (simp add: preprocess_def example_batch_def x_txt_def y_txt_def z_txt_def endsWith_def
      group_step_def startsWith_def map_has_def map_get_def)

lemma example_preprocess_long:
  "preprocess example_batch_long_names =
     [\<lparr>a_name = ''a'', a_size = 35, a_type = folder, a_files = Some example_batch_long_names\<rparr>]"
  by (simp add: preprocess_def example_batch_long_names_def x_txt_def y_txt_def z_txt_def endsWith_def
      group_step_def startsWith_def map_has_def map_get_def)

lemma example_read:
  "readArchiveInfo loadAsync getFileList
     \<lparr>a_name = ''a'', a_size = 35, a_type = folder, a_files = Some example_batch\<rparr>
   = Inr \<lparr>i_name = ''a'', i_size = 35, exts = [''txt''], fileCount = 3, folderCount = 1\<rparr>"
  by (simp add: readArchiveInfo_def readFolder_def example_batch_def x_txt_def y_txt_def z_txt_def
      folder_step_def add_ext_def pop_def set_add_def register_depth_def map_has_def map_get_def)

lemma example_read_long:
  "readArchiveInfo loadAsync getFileList
     \<lparr>a_name = ''a'', a_size = 35, a_type = folder, a_files = Some example_batch_long_names\<rparr>
   = Inr \<lparr>i_name = ''a'', i_size = 35, exts = [''txt''], fileCount = 3, folderCount = 1\<rparr>"
  by (simp add: readArchiveInfo_def readFolder_def example_batch_long_names_def x_txt_def y_txt_def z_txt_def
      folder_step_def add_ext_def pop_def set_add_def register_depth_def map_has_def map_get_def)

text \<open>
  Claim C4. The batch of the three entries \<open>a/x.txt\<close> (10 bytes, path \<open>/a/x.txt\<close>),
  \<open>a/y.txt\<close> (20 bytes, path \<open>/a/y.txt\<close>) and \<open>a/sub/z.txt\<close> (5 bytes, path
  \<open>/a/sub/z.txt\<close>) is grouped into exactly one folder archive named \<open>a\<close> of size 35, and
  reading it gives \<open>fileCount = 3\<close>, \<open>folderCount = 1\<close> and \<open>exts = {txt}\<close>, whatever the two
  decoders are and whether the entries carry base names or the names as written.
\<close>

theorem spec_example:
  "preprocess example_batch =
     [\<lparr>a_name = ''a'', a_size = 35, a_type = folder, a_files = Some example_batch\<rparr>]
   \<and> map (readArchiveInfo loadAsync getFileList) (preprocess example_batch) =
     [Inr \<lparr>i_name = ''a'', i_size = 35, exts = [''txt''], fileCount = 3, folderCount = 1\<rparr>]
   \<and> preprocess example_batch_long_names =
     [\<lparr>a_name = ''a'', a_size = 35, a_type = folder, a_files = Some example_batch_long_names\<rparr>]
   \<and> map (readArchiveInfo loadAsync getFileList) (preprocess example_batch_long_names) =
     [Inr \<lparr>i_name = ''a'', i_size = 35, exts = [''txt''], fileCount = 3, folderCount = 1\<rparr>]"
  by (simp add: example_preprocess example_preprocess_long example_read example_read_long)

section \<open>Grouping\<close>

lemma map_set_new: "k \<notin> fst ` set m \<Longrightarrow> map_set m k v = m @ [(k, v)]"
  by (induction m) auto

lemma map_set_last: "k \<notin> fst ` set m \<Longrightarrow> map_set (m @ [(k, v)]) k v' = m @ [(k, v')]"
  by (induction m) auto

lemma map_set_keys:
  "distinct ks \<Longrightarrow> k \<in> set ks \<Longrightarrow>
   map_set (map (\<lambda>k. (k, g k)) ks) k v = map (\<lambda>k'. (k', if k' = k then v else g k')) ks"
  by (induction ks) auto

lemma map_of_keys: "k \<in> set ks \<Longrightarrow> map_of (map (\<lambda>k. (k, g k)) ks) k = Some (g k)"
  by (induction ks) auto

lemma set_first_seen: "set (first_seen xs) = set xs"
  by (induction xs) auto

lemma distinct_first_seen: "distinct (first_seen xs)"
  by (induction xs) (auto simp: set_first_seen)

lemma first_seen_snoc:
  "first_seen (xs @ [x]) = (if x \<in> set xs then first_seen xs else first_seen xs @ [x])"
  by (induction xs) (auto simp: set_first_seen)

lemma group_step_skip: "\<not> has_rooted_path f \<Longrightarrow> group_step f m = m"
  by (auto simp: group_step_def has_rooted_path_def startsWith_def split: option.splits)

lemma grouped_skip: "\<not> has_rooted_path f \<Longrightarrow> grouped (pre @ [f]) = grouped pre"
  by (simp add: grouped_def)

lemma group_step_rooted:
  "has_rooted_path f \<Longrightarrow>
   group_step f m =
     (let t = (if \<not> map_has m (top_folder f) then map_set m (top_folder f) [] else m)
      in case map_get t (top_folder f) of
           None \<Rightarrow> t
         | Some members \<Rightarrow> map_set t (top_folder f) (members @ [f]))"
  by (auto simp: group_step_def has_rooted_path_def top_folder_def startsWith_def Let_def
      split: option.splits)


lemma grouped_keys: "fst ` set (grouped pre) = top_folder ` {f \<in> set pre. has_rooted_path f}"
  by (auto simp: grouped_def set_first_seen image_iff)

lemma group_step_grouped: "group_step f (grouped pre) = grouped (pre @ [f])"
proof (cases "has_rooted_path f")
  case False
  then show ?thesis by (simp add: group_step_skip grouped_skip)
next
  case True
  define k where "k = top_folder f"
  define ks where "ks = first_seen (map top_folder (filter has_rooted_path pre))"
  define g where "g = (\<lambda>k. filter (\<lambda>f. has_rooted_path f \<and> top_folder f = k) pre)"
  have m: "grouped pre = map (\<lambda>k. (k, g k)) ks"
    by (simp add: grouped_def ks_def g_def)
  have dist: "distinct ks"
    by (simp add: ks_def distinct_first_seen)
  have set_ks: "set ks = top_folder ` {f \<in> set pre. has_rooted_path f}"
    by (auto simp: ks_def set_first_seen)
  have keys: "fst ` set (map (\<lambda>k. (k, g k)) ks) = set ks"
    by (auto simp: image_iff)
  have g': "filter (\<lambda>x. has_rooted_path x \<and> top_folder x = k') (pre @ [f])
            = (if k' = k then g k @ [f] else g k')" for k'
    using True by (auto simp: g_def k_def)
  show ?thesis
  proof (cases "k \<in> set ks")
    case in_ks: True
    have "group_step f (grouped pre) = map_set (map (\<lambda>k. (k, g k)) ks) k (g k @ [f])"
      using True in_ks keys
      by (simp add: group_step_rooted m map_has_def map_get_def map_of_keys k_def [symmetric] Let_def)
    also have "\<dots> = map (\<lambda>k'. (k', if k' = k then g k @ [f] else g k')) ks"
      using dist in_ks by (rule map_set_keys)
    also have "\<dots> = grouped (pre @ [f])"
      using True in_ks set_ks
      by (simp add: grouped_def g' first_seen_snoc ks_def [symmetric] k_def [symmetric] g_def)
    finally show ?thesis .
  next
    case not_in: False
    then have gk: "g k = []"
      by (auto simp: g_def set_ks filter_empty_conv)
    have new: "k \<notin> fst ` set (map (\<lambda>k. (k, g k)) ks)"
      using not_in keys by simp
    have "group_step f (grouped pre) = map (\<lambda>k. (k, g k)) ks @ [(k, [f])]"
      using True not_in keys
      by (simp add: group_step_rooted m map_has_def map_get_def k_def [symmetric] Let_def
          map_set_new [OF new] map_set_last [OF new] map_of_eq_None_iff [THEN iffD2] map_add_def
          split: option.splits)
    also have "\<dots> = grouped (pre @ [f])"
      using True not_in set_ks gk
      by (auto simp: grouped_def g' first_seen_snoc ks_def [symmetric] k_def [symmetric] g_def)
    finally show ?thesis .
  qed
qed

lemma group_loop_grouped: "group_loop others (grouped pre) = grouped (pre @ others)"
proof (induction others arbitrary: pre)
  case Nil
  show ?case by simp
next
  case (Cons f others)
  show ?case
    using Cons [of "pre @ [f]"] by (simp add: group_step_grouped)
qed

lemma group_loop_eq: "group_loop others [] = grouped others"
  using group_loop_grouped [of others "[]"] by (simp add: grouped_def)

lemma classify_loop_eq:
  "classify_loop fs (archives, others) =
     (archives @ map container_archive (filter is_container fs),
      others @ filter (\<lambda>f. \<not> is_container f) fs)"
  by (induction fs arbitrary: archives others) (auto simp: is_container_def container_archive_def)

lemma fold_size_sum: "fold (\<lambda>f sum. sum + f_size f) fs n = n + sum_list (map f_size fs)"
  by (induction fs arbitrary: n) simp_all

lemma emit_loop_eq:
  "emit_loop folders archives =
     archives @ map (\<lambda>(nm, fs). \<lparr>a_name = nm, a_size = sum_list (map f_size fs), a_type = folder,
                                   a_files = Some fs\<rparr>) folders"
  by (induction folders arbitrary: archives) (auto simp: fold_size_sum)

lemma preprocess_eq:
  "preprocess fs =
     map container_archive (filter is_container fs)
     @ map (folder_archive fs)
         (first_seen (map top_folder (filter (\<lambda>f. \<not> is_container f \<and> has_rooted_path f) fs)))"
  by (simp add: preprocess_def classify_loop_eq emit_loop_eq group_loop_eq grouped_def
      folder_archive_def folder_members_def comp_def conj_commute conj_left_commute)

lemma mset_filter_disjoint:
  "(\<And>x. \<not> (A x \<and> B x)) \<Longrightarrow>
   mset (filter A xs) + mset (filter B xs) = mset (filter (\<lambda>x. A x \<or> B x) xs)"
  by (induction xs) auto

lemma mset_concat_by_key:
  "distinct ks \<Longrightarrow>
   mset (concat (map (\<lambda>k. filter (\<lambda>x. P x \<and> key x = k) xs) ks))
     = mset (filter (\<lambda>x. P x \<and> key x \<in> set ks) xs)"
proof (induction ks)
  case Nil
  show ?case by simp
next
  case (Cons k ks)
  then have "k \<notin> set ks" and "distinct ks"
    by simp_all
  then have "mset (concat (map (\<lambda>k. filter (\<lambda>x. P x \<and> key x = k) xs) (k # ks)))
    = mset (filter (\<lambda>x. P x \<and> key x = k) xs) + mset (filter (\<lambda>x. P x \<and> key x \<in> set ks) xs)"
    using Cons.IH by simp
  also have "\<dots> = mset (filter (\<lambda>x. (P x \<and> key x = k) \<or> (P x \<and> key x \<in> set ks)) xs)"
    using \<open>k \<notin> set ks\<close> by (intro mset_filter_disjoint) auto
  also have "\<dots> = mset (filter (\<lambda>x. P x \<and> key x \<in> set (k # ks)) xs)"
    by (rule arg_cong [where f = mset], rule filter_cong) auto
  finally show ?case .
qed

lemma archive_files_container: "archive_files (container_archive f) = [f]"
  by (simp add: archive_files_def container_archive_def)

lemma archive_files_folder: "archive_files (folder_archive fs nm) = folder_members fs nm"
  by (simp add: archive_files_def folder_archive_def)

lemma concat_singletons: "concat (map (\<lambda>x. [x]) xs) = xs"
  by (induction xs) simp_all

lemma mset_preprocess_files:
  "mset (concat (map archive_files (preprocess fs)))
     = mset (filter (\<lambda>f. is_container f \<or> has_rooted_path f) fs)"
proof -
  define P where "P = (\<lambda>f. \<not> is_container f \<and> has_rooted_path f)"
  define ks where "ks = first_seen (map top_folder (filter P fs))"
  have members: "folder_members fs = (\<lambda>k. filter (\<lambda>f. P f \<and> top_folder f = k) fs)"
    by (auto simp: folder_members_def P_def fun_eq_iff intro: filter_cong)
  have "mset (concat (map (folder_members fs) ks))
          = mset (filter (\<lambda>f. P f \<and> top_folder f \<in> set ks) fs)"
    unfolding members by (rule mset_concat_by_key) (simp add: ks_def distinct_first_seen)
  also have "\<dots> = mset (filter P fs)"
    by (rule arg_cong [where f = mset], rule filter_cong) (auto simp: ks_def set_first_seen)
  finally have folders: "mset (concat (map (folder_members fs) ks)) = mset (filter P fs)" .
  have "mset (concat (map archive_files (preprocess fs)))
          = mset (filter is_container fs) + mset (concat (map (folder_members fs) ks))"
    by (simp add: preprocess_eq comp_def archive_files_container archive_files_folder
        concat_singletons ks_def P_def)
  also have "\<dots> = mset (filter is_container fs) + mset (filter P fs)"
    by (simp add: folders)
  also have "\<dots> = mset (filter (\<lambda>f. is_container f \<or> P f) fs)"
    by (intro mset_filter_disjoint) (auto simp: P_def)
  also have "\<dots> = mset (filter (\<lambda>f. is_container f \<or> has_rooted_path f) fs)"
    by (rule arg_cong [where f = mset], rule filter_cong) (auto simp: P_def)
  finally show ?thesis .
qed

lemma in_nth_Union: "i < length xss \<Longrightarrow> x \<in> set (xss ! i) \<Longrightarrow> x \<in> \<Union> (set ` set xss)"
  by (meson UN_I nth_mem)

lemma distinct_concat_unique_index:
  "distinct (concat xss) \<Longrightarrow> i < length xss \<Longrightarrow> j < length xss \<Longrightarrow>
   x \<in> set (xss ! i) \<Longrightarrow> x \<in> set (xss ! j) \<Longrightarrow> i = j"
proof (induction xss arbitrary: i j)
  case Nil
  then show ?case by simp
next
  case (Cons xs xss)
  have disj: "set xs \<inter> \<Union> (set ` set xss) = {}" and dist: "distinct (concat xss)"
    using Cons.prems(1) by simp_all
  have tail: "x \<in> \<Union> (set ` set xss)" if "n < length xss" "x \<in> set (xss ! n)" for n
    using that by (rule in_nth_Union)
  show ?case
  proof (cases i)
    case i0: 0
    show ?thesis
    proof (cases j)
      case 0
      with i0 show ?thesis by simp
    next
      case (Suc j')
      with Cons.prems have "x \<in> \<Union> (set ` set xss)"
        by (intro tail [of j']) simp_all
      moreover from i0 Cons.prems have "x \<in> set xs"
        by simp
      ultimately show ?thesis
        using disj by blast
    qed
  next
    case iS: (Suc i')
    show ?thesis
    proof (cases j)
      case 0
      with Cons.prems have "x \<in> set xs"
        by simp
      moreover from iS Cons.prems have "x \<in> \<Union> (set ` set xss)"
        by (intro tail [of i']) simp_all
      ultimately show ?thesis
        using disj by blast
    next
      case (Suc j')
      with iS Cons.prems have "i' = j'"
        by (intro Cons.IH [OF dist]) simp_all
      with iS Suc show ?thesis by simp
    qed
  qed
qed

lemmas sample_files = x_txt_def z_txt_def zip_file_def rar_file_def loose_file_def b_png_def

lemma interleaved_preprocess:
  "preprocess interleaved_batch =
     [\<lparr>a_name = ''pack.zip'', a_size = 100, a_type = zip, a_files = Some [zip_file]\<rparr>,
      \<lparr>a_name = ''pack.rar'', a_size = 200, a_type = rar, a_files = Some [rar_file]\<rparr>,
      \<lparr>a_name = ''a'', a_size = 15, a_type = folder, a_files = Some [x_txt, z_txt]\<rparr>,
      \<lparr>a_name = ''b'', a_size = 8, a_type = folder, a_files = Some [b_png]\<rparr>]"
  by (simp add: preprocess_def interleaved_batch_def sample_files endsWith_def
      group_step_def startsWith_def map_has_def map_get_def)

lemma interleaved_distinct: "distinct interleaved_batch"
  by (simp add: interleaved_batch_def sample_files)

text \<open>
  Claim C3. Grouping is a partition. The files of the returned archives, taken together, are
  the entries of the batch that have a name ending in \<open>.zip\<close> or \<open>.rar\<close> or a path starting
  with the separator, each as often as the batch has it; an entry of neither kind is in no
  archive. For a batch without repeated entries, no entry occurs twice in the files of the
  archives, and every entry of one of the two kinds is in the files of exactly one archive.
\<close>

theorem grouping_is_partition:
  "mset (concat (map archive_files (preprocess fs)))
     = mset (filter (\<lambda>f. is_container f \<or> has_rooted_path f) fs)
   \<and> (\<forall>f \<in> set fs. \<not> (is_container f \<or> has_rooted_path f) \<longrightarrow>
          (\<forall>a \<in> set (preprocess fs). f \<notin> set (archive_files a)))
   \<and> (distinct fs \<longrightarrow>
          distinct (concat (map archive_files (preprocess fs)))
          \<and> (\<forall>f \<in> set fs. is_container f \<or> has_rooted_path f \<longrightarrow>
                (\<exists>!i. i < length (preprocess fs) \<and> f \<in> set (archive_files (preprocess fs ! i)))))"
proof -
  let ?keep = "\<lambda>f. is_container f \<or> has_rooted_path f"
  let ?xss = "map archive_files (preprocess fs)"
  have m: "mset (concat ?xss) = mset (filter ?keep fs)"
    by (rule mset_preprocess_files)
  then have s: "set (concat ?xss) = set (filter ?keep fs)"
    by (rule mset_eq_setD)
  have none: "f \<notin> set (archive_files a)" if "\<not> ?keep f" "a \<in> set (preprocess fs)" for f a
  proof
    assume "f \<in> set (archive_files a)"
    with that(2) have "f \<in> set (concat ?xss)"
      by auto
    with s that(1) show False
      by simp
  qed
  have one: "\<exists>!i. i < length (preprocess fs) \<and> f \<in> set (archive_files (preprocess fs ! i))"
    if d: "distinct (concat ?xss)" and f: "f \<in> set fs" "?keep f" for f
  proof -
    from f s have "f \<in> set (concat ?xss)"
      by simp
    then obtain a where "a \<in> set (preprocess fs)" "f \<in> set (archive_files a)"
      by auto
    then obtain i where i: "i < length (preprocess fs)" "f \<in> set (archive_files (preprocess fs ! i))"
      by (auto simp: in_set_conv_nth)
    show ?thesis
    proof (rule ex1I [of _ i])
      show "i < length (preprocess fs) \<and> f \<in> set (archive_files (preprocess fs ! i))"
        using i by simp
    next
      fix j
      assume "j < length (preprocess fs) \<and> f \<in> set (archive_files (preprocess fs ! j))"
      with i show "j = i"
        using distinct_concat_unique_index [OF d, of j i f] by simp
    qed
  qed
  have dist: "distinct (concat ?xss)" if "distinct fs"
    using that mset_eq_imp_distinct_iff [OF m] by simp
  show ?thesis
    using m none one dist by blast
qed

theorem grouping_is_partition_witness:
  "distinct interleaved_batch
   \<and> map archive_files (preprocess interleaved_batch) = [[zip_file], [rar_file], [x_txt, z_txt], [b_png]]
   \<and> filter (\<lambda>f. is_container f \<or> has_rooted_path f) interleaved_batch
       = [x_txt, zip_file, b_png, rar_file, z_txt]
   \<and> distinct (concat (map archive_files (preprocess interleaved_batch)))"
proof -
  have "distinct (concat (map archive_files (preprocess interleaved_batch)))"
    using grouping_is_partition [of interleaved_batch] interleaved_distinct by blast
  moreover have "filter (\<lambda>f. is_container f \<or> has_rooted_path f) interleaved_batch
       = [x_txt, zip_file, b_png, rar_file, z_txt]"
    by (simp add: interleaved_batch_def sample_files is_container_def has_rooted_path_def
        endsWith_def startsWith_def)
  ultimately show ?thesis
    by (simp add: interleaved_distinct interleaved_preprocess archive_files_def)
qed



section \<open>Folder counts\<close>

lemma map_of_map_set: "map_of (map_set m k v) = (map_of m)(k \<mapsto> v)"
  by (induction m) (auto simp: fun_eq_iff)

lemma map_fst_map_set:
  "map fst (map_set m k v) = (if k \<in> set (map fst m) then map fst m else map fst m @ [k])"
  by (induction m) force+

lemma distinct_keys_map_set: "distinct (map fst m) \<Longrightarrow> distinct (map fst (map_set m k v))"
  by (simp add: map_fst_map_set)

lemma distinct_set_add: "distinct xs \<Longrightarrow> distinct (set_add x xs)"
  by (simp add: set_add_def)

lemma map_has_iff: "map_has m k \<longleftrightarrow> map_of m k \<noteq> None"
  by (simp add: map_has_def map_of_eq_None_iff)

lemma register_depth_map_of:
  "map_of (register_depth paths d t) =
     (map_of t)(d \<mapsto> set_add (paths ! d) (case map_of t d of None \<Rightarrow> [] | Some ns \<Rightarrow> ns))"
  by (cases "map_of t d")
     (simp_all add: register_depth_def Let_def map_has_iff map_get_def map_of_map_set)

lemma register_depth_distinct_keys:
  "distinct (map fst t) \<Longrightarrow> distinct (map fst (register_depth paths d t))"
  by (simp add: register_depth_def Let_def map_get_def distinct_keys_map_set split: option.splits)

lemma register_depth_ok: "tree_ok t \<Longrightarrow> tree_ok (register_depth paths d t)"
  unfolding tree_ok_def
  by (auto simp: register_depth_distinct_keys register_depth_map_of distinct_set_add
      split: if_splits option.splits)

lemma in_tree_pairs:
  "distinct (map fst t) \<Longrightarrow> (d, n) \<in> tree_pairs t \<longleftrightarrow> (\<exists>ns. map_of t d = Some ns \<and> n \<in> set ns)"
  by (simp add: tree_pairs_def)

lemma register_depth_pairs:
  assumes "tree_ok t"
  shows "tree_pairs (register_depth paths d t) = insert (d, paths ! d) (tree_pairs t)"
proof -
  have dt: "distinct (map fst t)"
    using assms by (simp add: tree_ok_def)
  then have dr: "distinct (map fst (register_depth paths d t))"
    by (rule register_depth_distinct_keys)
  have "(d', n) \<in> tree_pairs (register_depth paths d t)
        \<longleftrightarrow> (d', n) = (d, paths ! d) \<or> (d', n) \<in> tree_pairs t" for d' n
    by (auto simp: in_tree_pairs [OF dr] in_tree_pairs [OF dt] register_depth_map_of set_set_add
        split: option.splits if_splits)
  then show ?thesis
    by auto
qed


lemma fold_register_depth:
  "tree_ok t \<Longrightarrow>
   tree_ok (fold (register_depth paths) ds t)
   \<and> tree_pairs (fold (register_depth paths) ds t) = tree_pairs t \<union> (\<lambda>d. (d, paths ! d)) ` set ds"
  by (induction ds arbitrary: t) (auto simp: register_depth_ok register_depth_pairs)

lemma intermediate_segments_Nil: "intermediate_segments [] = {}"
  by (simp add: intermediate_segments_def)

lemma intermediate_segments_Cons:
  "intermediate_segments (f # fs) = intermediate_segments [f] \<union> intermediate_segments fs"
  by (simp add: intermediate_segments_def)

lemma folder_step_tree:
  assumes "tree_ok (fst st)" and "folder_step f st = Inr st'"
  shows "tree_ok (fst st') \<and> tree_pairs (fst st') = tree_pairs (fst st) \<union> intermediate_segments [f]"
proof -
  from assms(2) obtain p where p: "f_path f = Some p"
    by (auto simp: folder_step_def split: option.splits)
  define paths where "paths = js_split CHR ''/'' p"
  show ?thesis
  proof (cases "length paths > 3")
    case True
    with assms(2) p have "fst st' = fold (register_depth paths) [2 ..< length paths - 1] (fst st)"
      by (auto simp: folder_step_def Let_def paths_def)
    moreover from True p have "intermediate_segments [f] = (\<lambda>d. (d, paths ! d)) ` set [2 ..< length paths - 1]"
      by (simp add: intermediate_segments_def Let_def paths_def)
    ultimately show ?thesis
      using fold_register_depth [OF assms(1), of paths "[2 ..< length paths - 1]"] by simp
  next
    case False
    with assms(2) p have "fst st' = fst st"
      by (auto simp: folder_step_def Let_def paths_def)
    moreover from False p have "intermediate_segments [f] = {}"
      by (simp add: intermediate_segments_def Let_def paths_def)
    ultimately show ?thesis
      using assms(1) by simp
  qed
qed

lemma folder_loop_tree:
  "tree_ok (fst st) \<Longrightarrow> folder_loop fs st = Inr st' \<Longrightarrow>
   tree_ok (fst st') \<and> tree_pairs (fst st') = tree_pairs (fst st) \<union> intermediate_segments fs"
proof (induction fs arbitrary: st)
  case Nil
  then show ?case by (simp add: intermediate_segments_Nil)
next
  case (Cons f fs)
  from Cons.prems(2) obtain st1 where s1: "folder_step f st = Inr st1" and l: "folder_loop fs st1 = Inr st'"
    by (auto split: sum.splits)
  from folder_step_tree [OF Cons.prems(1) s1]
  have ok1: "tree_ok (fst st1)" and p1: "tree_pairs (fst st1) = tree_pairs (fst st) \<union> intermediate_segments [f]"
    by simp_all
  from Cons.IH [OF ok1 l] p1 show ?case
    by (auto simp: intermediate_segments_Cons [of f fs])
qed

lemma folder_loop_returns:
  "(\<exists>st'. folder_loop fs st = Inr st') \<longleftrightarrow> (\<forall>f \<in> set fs. f_path f \<noteq> None)"
proof (induction fs arbitrary: st)
  case Nil
  show ?case by simp
next
  case (Cons f fs)
  show ?case
  proof (cases "f_path f")
    case None
    then show ?thesis by (simp add: folder_step_def)
  next
    case (Some p)
    then obtain st1 where "folder_step f st = Inr st1"
      by (simp add: folder_step_def Let_def)
    with Some Cons.IH [of st1] show ?thesis by simp
  qed
qed

lemma tree_pairs_Cons: "tree_pairs ((d, ns) # t) = Pair d ` set ns \<union> tree_pairs t"
  by (auto simp: tree_pairs_def)

lemma tree_pairs_keys: "(d, n) \<in> tree_pairs t \<Longrightarrow> d \<in> fst ` set t"
  by (force simp: tree_pairs_def)

lemma finite_tree_pairs: "finite (tree_pairs t)"
  by (induction t) (auto simp: tree_pairs_Cons, simp add: tree_pairs_def)

lemma tree_ok_Cons: "tree_ok ((d, ns) # t) \<Longrightarrow> distinct ns \<and> d \<notin> fst ` set t \<and> tree_ok t"
  unfolding tree_ok_def by (auto split: if_splits)

lemma folder_count_card:
  "tree_ok t \<Longrightarrow> sum_list (map (\<lambda>(depth, folders). length folders) t) = card (tree_pairs t)"
proof (induction t)
  case Nil
  show ?case by (simp add: tree_pairs_def)
next
  case (Cons e t)
  obtain d ns where e: "e = (d, ns)"
    by (cases e)
  from Cons.prems e have dist: "distinct ns" and new: "d \<notin> fst ` set t" and ok: "tree_ok t"
    using tree_ok_Cons by blast+
  have disjoint: "Pair d ` set ns \<inter> tree_pairs t = {}"
    using new tree_pairs_keys by fastforce
  have "card (Pair d ` set ns) = length ns"
    using dist by (simp add: card_image distinct_card inj_on_def)
  then show ?case
    using Cons.IH [OF ok] disjoint
    by (simp add: e tree_pairs_Cons card_Un_disjoint finite_tree_pairs)
qed

lemma readFolder_Inr:
  assumes "readFolder a = Inr info"
  shows "a_files a \<noteq> None \<and> (\<forall>f \<in> set (archive_files a). f_path f \<noteq> None)
         \<and> folderCount info = card (intermediate_segments (archive_files a))"
proof -
  from assms obtain fs where fs: "a_files a = Some fs"
    by (auto simp: readFolder_def split: option.splits)
  with assms obtain t es where l: "folder_loop fs ([], []) = Inr (t, es)"
    and c: "folderCount info = sum_list (map (\<lambda>(depth, folders). length folders) t)"
    by (auto simp: readFolder_def split: sum.splits)
  have ok0: "tree_ok (fst ([], []))"
    by (simp add: tree_ok_def)
  from folder_loop_tree [OF ok0 l]
  have "tree_ok t" and "tree_pairs t = intermediate_segments fs"
    by (simp_all add: tree_pairs_def)
  then have "folderCount info = card (intermediate_segments fs)"
    using c folder_count_card [of t] by simp
  moreover from l have "\<forall>f \<in> set fs. f_path f \<noteq> None"
    using folder_loop_returns [of fs "([], [])"] by blast
  ultimately show ?thesis
    using fs by (simp add: archive_files_def)
qed

lemma readFolder_returns:
  assumes "a_files a = Some fs" and "\<forall>f \<in> set fs. f_path f \<noteq> None"
  shows "\<exists>info. readFolder a = Inr info"
proof -
  from assms(2) obtain st where "folder_loop fs ([], []) = Inr st"
    using folder_loop_returns [of fs "([], [])"] by blast
  with assms(1) show ?thesis
    by (cases st) (simp add: readFolder_def)
qed

text \<open>
  Claim C2. For a folder-type archive, the \<open>folderCount\<close> of the record that the reader
  returns is the number of distinct (depth, name) pairs among the intermediate path segments
  of its members (the segments from index 2 up to but excluding the final one, over members
  whose path has more than 3 segments): a name at two depths counts twice, a name reached
  through several files at one depth counts once. The reader returns a record exactly when
  the archive has its files and every member has a path.
\<close>

theorem folderCount_counts_depth_name_pairs:
  "a_type a = folder \<Longrightarrow>
   (\<forall>info. readArchiveInfo loadAsync getFileList a = Inr info \<longrightarrow>
      folderCount info = card (intermediate_segments (archive_files a)))
   \<and> ((\<exists>info. readArchiveInfo loadAsync getFileList a = Inr info) \<longleftrightarrow>
        a_files a \<noteq> None \<and> (\<forall>f \<in> set (archive_files a). f_path f \<noteq> None))"
proof -
  assume "a_type a = folder"
  then have r: "readArchiveInfo loadAsync getFileList a = readFolder a"
    by (simp add: readArchiveInfo_def)
  have "\<exists>info. readFolder a = Inr info"
    if "a_files a \<noteq> None" "\<forall>f \<in> set (archive_files a). f_path f \<noteq> None"
  proof -
    from that(1) obtain fs where fs: "a_files a = Some fs"
      by auto
    with that(2) have "\<forall>f \<in> set fs. f_path f \<noteq> None"
      by (simp add: archive_files_def)
    with fs show ?thesis
      by (rule readFolder_returns)
  qed
  then show ?thesis
    unfolding r using readFolder_Inr [of a] by blast
qed

theorem folderCount_counts_depth_name_pairs_witness:
  "a_type nested_archive = folder
   \<and> readArchiveInfo zip_index rar_index nested_archive =
       Inr \<lparr>i_name = ''r'', i_size = 3, exts = [''txt''], fileCount = 2, folderCount = 2\<rparr>
   \<and> intermediate_segments (archive_files nested_archive) = {(2, ''x''), (3, ''x'')}
   \<and> card (intermediate_segments (archive_files nested_archive)) = 2"
proof -
  have t: "a_type nested_archive = folder"
    by (simp add: nested_archive_def)
  have r: "readArchiveInfo zip_index rar_index nested_archive =
       Inr \<lparr>i_name = ''r'', i_size = 3, exts = [''txt''], fileCount = 2, folderCount = 2\<rparr>"
    by (simp add: readArchiveInfo_def readFolder_def nested_archive_def
        folder_step_def add_ext_def pop_def set_add_def register_depth_def map_has_def map_get_def)
  have s: "intermediate_segments (archive_files nested_archive) = {(2, ''x''), (3, ''x'')}"
  proof -
    have r1: "{2 ..< Suc (Suc (Suc (Suc 0)))} = {2, 3}" and r2: "{2 ..< Suc (Suc (Suc 0))} = {2}"
      by auto
    have "js_split CHR ''/'' ''/r/x/x/f.txt'' = ['''', ''r'', ''x'', ''x'', ''f.txt'']"
      and "js_split CHR ''/'' ''/r/x/g.txt'' = ['''', ''r'', ''x'', ''g.txt'']"
      by simp_all
    then show ?thesis
      by (simp add: intermediate_segments_def archive_files_def nested_archive_def Let_def r1 r2
          del: js_split.simps)
  qed
  from folderCount_counts_depth_name_pairs [OF t, of zip_index rar_index] r
  have "card (intermediate_segments (archive_files nested_archive)) = 2"
    by fastforce
  with t r s show ?thesis
    by simp
qed

end
